theory Spec2Isabelle
  imports Complex_Main "HOL-Library.AList"
begin

section \<open>Shared data\<close>

text \<open>
  Grid cells are addressed by a pair of integers.  The source keys its JavaScript maps
  by the template string \<^verbatim>\<open>`${x},${y}`\<close> (\<^verbatim>\<open>getPaintKey\<close>,
  \<^verbatim>\<open>hashCoordinate\<close>, \<^verbatim>\<open>cellKey\<close>); two integer pairs
  give the same string exactly when they are equal, so the key is modelled by the pair.
\<close>

type_synonym cellKey = "int \<times> int"

definition getPaintKey :: "int \<Rightarrow> int \<Rightarrow> cellKey" where
  "getPaintKey x y = (x, y)"

text \<open>The interfaces of \<^verbatim>\<open>src/lib/supabase.ts\<close>. A \<^verbatim>\<open>null\<close> colour is \<open>None\<close>.\<close>

record Paint =
  paint_x :: int
  paint_y :: int
  paint_color :: "string option"
  paint_owner :: string
  paint_owner_name :: "string option"
  paint_owner_avatar :: "string option"

record PaintUpdate =
  upd_x :: int
  upd_y :: int
  upd_color :: "string option"
  upd_owner :: string
  upd_owner_name :: "string option"
  upd_owner_avatar :: "string option"
  upd_timestamp :: int

record PaintDelete =
  del_x :: int
  del_y :: int
  del_owner :: string
  del_timestamp :: int

datatype RealtimeMessage =
    MsgPaint PaintUpdate
  | MsgDelete PaintDelete
  | MsgPing int

section \<open>PaintCanvas (src/components/PaintCanvas.tsx)\<close>

record PendingPaint =
  pend_x :: int
  pend_y :: int
  pend_color :: "string option"
  pend_owner :: string
  pend_timestamp :: int

text \<open>Requests the component sends to the persistent store.\<close>

datatype StoreRequest =
    Upsert "Paint list"
  | DeleteXY int int

text \<open>
  The component state: the React state cells \<^verbatim>\<open>paints\<close>,
  \<^verbatim>\<open>pendingPaints\<close> and \<^verbatim>\<open>paintBatch\<close>, the two refs that
  hold a pending animation frame and a pending batch timer, and a log of what the
  handlers did to the outside: the animation frames requested, the calls of
  \<^verbatim>\<open>renderCanvas\<close>, the broadcasts and the store requests.

  A handler is a closure of the render that created it.  What it changes through a
  functional update (\<^verbatim>\<open>setPaints(prev => ...)\<close>) or through a ref acts on
  the current state, the argument \<open>st\<close> here.  What it reads directly
  (\<open>userId\<close>, \<open>userName\<close>, \<open>userAvatar\<close>, \<open>paintBatch\<close>) is the value of
  its render and is a separate argument.  The pending batch timer therefore holds the
  \<^verbatim>\<open>paintBatch\<close> that its callback closed over.
\<close>

record CanvasState =
  paints :: "cellKey \<rightharpoonup> Paint"
  pendingPaints :: "cellKey \<rightharpoonup> PendingPaint"
  batch_paints :: "PaintUpdate list"
  batch_deletes :: "PaintDelete list"
  animationFrame :: bool
  batchTimeout :: "(PaintUpdate list \<times> PaintDelete list) option"
  mapReady :: bool
  frameRequests :: nat
  immediateRenders :: nat
  broadcasts :: "RealtimeMessage list"
  storeRequests :: "StoreRequest list"

definition initialCanvas :: CanvasState where
  "initialCanvas =
     \<lparr>paints = Map.empty, pendingPaints = Map.empty, batch_paints = [], batch_deletes = [],
      animationFrame = False, batchTimeout = None, mapReady = True,
      frameRequests = 0, immediateRenders = 0, broadcasts = [], storeRequests = []\<rparr>"

text \<open>
  \<^verbatim>\<open>scheduleCanvasRender\<close> returns at once when an animation frame is pending,
  and requests one otherwise; the frame's callback calls \<^verbatim>\<open>renderCanvas\<close> and
  clears the ref.  Of \<^verbatim>\<open>renderCanvas\<close> only the call is recorded, not what
  it draws.
\<close>

definition scheduleCanvasRender :: "CanvasState \<Rightarrow> CanvasState" where
  "scheduleCanvasRender st =
     (if animationFrame st then st
      else st\<lparr>animationFrame := True, frameRequests := Suc (frameRequests st)\<rparr>)"

definition renderCanvas :: "CanvasState \<Rightarrow> CanvasState" where
  "renderCanvas st = st\<lparr>immediateRenders := Suc (immediateRenders st)\<rparr>"

definition animationFrameCallback :: "CanvasState \<Rightarrow> CanvasState" where
  "animationFrameCallback st = (renderCanvas st)\<lparr>animationFrame := False\<rparr>"

text \<open>
  \<^verbatim>\<open>handleRealtimeUpdate\<close>, lines 204-247.  \<open>userId\<close> is the value of the
  \<^verbatim>\<open>string | null\<close> state cell in the render that created the callback.
\<close>

definition handleRealtimeUpdate :: "string option \<Rightarrow> RealtimeMessage \<Rightarrow> CanvasState \<Rightarrow> CanvasState" where
  "handleRealtimeUpdate userId message st =
     (case message of
        MsgPaint d \<Rightarrow>
          (let key = getPaintKey (upd_x d) (upd_y d) in
           if Some (upd_owner d) = userId then st
           else scheduleCanvasRender
             (st\<lparr>paints :=
                (case upd_color d of
                   None \<Rightarrow> (paints st)(key := None)
                 | Some c \<Rightarrow> (paints st)(key \<mapsto>
                     \<lparr>paint_x = upd_x d, paint_y = upd_y d, paint_color = Some c, paint_owner = upd_owner d,
                      paint_owner_name = upd_owner_name d, paint_owner_avatar = upd_owner_avatar d\<rparr>))\<rparr>))
      | MsgDelete d \<Rightarrow>
          (let key = getPaintKey (del_x d) (del_y d) in
           if Some (del_owner d) = userId then st
           else scheduleCanvasRender (st\<lparr>paints := (paints st)(key := None)\<rparr>))
      | MsgPing t \<Rightarrow> st)"

text \<open>
  The handler the component subscribes to the realtime channel, lines 132-170: the
  effect has an empty dependency list, so it runs once, after the first render, and
  \<^verbatim>\<open>paintChannel.subscribe(handleRealtimeUpdate)\<close> registers the callback of
  that render, in which \<open>userId\<close> is still \<^verbatim>\<open>null\<close>
  (\<^verbatim>\<open>useState<string | null>(null)\<close>).  No later callback is subscribed.
\<close>

definition subscribedHandler :: "RealtimeMessage \<Rightarrow> CanvasState \<Rightarrow> CanvasState" where
  "subscribedHandler message st = handleRealtimeUpdate None message st"

text \<open>
  \<^verbatim>\<open>handlePaint\<close>, lines 298-362.  \<open>now\<close> is \<^verbatim>\<open>Date.now()\<close>;
  \<^verbatim>\<open>!userId\<close> holds for \<^verbatim>\<open>null\<close> and for the empty string.
  The callback is created anew in every render in which \<^verbatim>\<open>paints\<close> or
  \<^verbatim>\<open>pendingPaints\<close> changed, so the \<^verbatim>\<open>processPaintBatch\<close> it hands to
  \<^verbatim>\<open>setTimeout\<close> is the one of the render at the time of the call: its
  \<^verbatim>\<open>paintBatch\<close> is the batch before this paint is appended.
\<close>

definition paintMessage :: "string \<Rightarrow> string \<Rightarrow> string \<Rightarrow> int \<Rightarrow> int \<Rightarrow> int \<Rightarrow> string \<Rightarrow> PaintUpdate" where
  "paintMessage uid userName userAvatar now x y c =
     \<lparr>upd_x = x, upd_y = y, upd_color = Some c, upd_owner = uid,
      upd_owner_name = Some userName, upd_owner_avatar = Some userAvatar, upd_timestamp = now\<rparr>"

definition handlePaint :: "string option \<Rightarrow> string \<Rightarrow> string \<Rightarrow> int \<Rightarrow> int \<Rightarrow> int \<Rightarrow> string \<Rightarrow> CanvasState \<Rightarrow> CanvasState" where
  "handlePaint userId userName userAvatar now x y c st =
     (case userId of
        None \<Rightarrow> st
      | Some uid \<Rightarrow>
          if uid = [] \<or> \<not> mapReady st then st
          else
            (let key = getPaintKey x y;
                 st1 = st\<lparr>pendingPaints := (pendingPaints st)(key \<mapsto>
                          \<lparr>pend_x = x, pend_y = y, pend_color = Some c, pend_owner = uid,
                           pend_timestamp = now\<rparr>)\<rparr>;
                 st2 = st1\<lparr>paints := (paints st1)(key \<mapsto>
                          \<lparr>paint_x = x, paint_y = y, paint_color = Some c, paint_owner = uid,
                           paint_owner_name = Some userName, paint_owner_avatar = Some userAvatar\<rparr>)\<rparr>;
                 st3 = renderCanvas st2;
                 st4 = st3\<lparr>broadcasts := broadcasts st3 @
                          [MsgPaint (paintMessage uid userName userAvatar now x y c)]\<rparr>;
                 st5 = st4\<lparr>batch_paints := batch_paints st4 @
                          [paintMessage uid userName userAvatar now x y c]\<rparr>
             in st5\<lparr>batchTimeout := Some (batch_paints st, batch_deletes st)\<rparr>))"

text \<open>
  \<^verbatim>\<open>processPaintBatch\<close>, lines 365-422: one upsert for the batched paints, one
  delete request per batched delete (filtered by \<^verbatim>\<open>x\<close> and \<^verbatim>\<open>y\<close>),
  then the batch is cleared and its cells leave \<^verbatim>\<open>pendingPaints\<close>.  The
  \<^verbatim>\<open>paintBatch\<close> it reads is the one of its closure, the first argument; the
  state cell it clears is the current one.
\<close>

definition upsertRow :: "PaintUpdate \<Rightarrow> Paint" where
  "upsertRow p = \<lparr>paint_x = upd_x p, paint_y = upd_y p, paint_color = upd_color p, paint_owner = upd_owner p,
                  paint_owner_name = upd_owner_name p, paint_owner_avatar = upd_owner_avatar p\<rparr>"

definition deleteRequests :: "PaintDelete list \<Rightarrow> StoreRequest list" where
  "deleteRequests ds = map (\<lambda>d. DeleteXY (del_x d) (del_y d)) ds"

fun removeKeys :: "cellKey list \<Rightarrow> (cellKey \<rightharpoonup> 'a) \<Rightarrow> (cellKey \<rightharpoonup> 'a)" where
  "removeKeys [] m = m"
| "removeKeys (k # ks) m = removeKeys ks (m(k := None))"

definition processPaintBatch :: "PaintUpdate list \<times> PaintDelete list \<Rightarrow> CanvasState \<Rightarrow> CanvasState" where
  "processPaintBatch paintBatch st =
     (let batchPaints = fst paintBatch; batchDeletes = snd paintBatch in
      if batchPaints = [] \<and> batchDeletes = [] then st
      else
        (let reqs = (if batchPaints \<noteq> [] then [Upsert (map upsertRow batchPaints)] else [])
                    @ deleteRequests batchDeletes;
             keys = map (\<lambda>p. getPaintKey (upd_x p) (upd_y p)) batchPaints
                    @ map (\<lambda>d. getPaintKey (del_x d) (del_y d)) batchDeletes
         in renderCanvas
              (st\<lparr>storeRequests := storeRequests st @ reqs,
                  batch_paints := [], batch_deletes := [],
                  pendingPaints := removeKeys keys (pendingPaints st)\<rparr>)))"

text \<open>The batch timer fires: the callback it was given runs once.\<close>

definition batchTimerFires :: "CanvasState \<Rightarrow> CanvasState" where
  "batchTimerFires st =
     (case batchTimeout st of
        None \<Rightarrow> st
      | Some paintBatch \<Rightarrow> processPaintBatch paintBatch (st\<lparr>batchTimeout := None\<rparr>))"

section \<open>CollaborativeCanvas (src/CollaborativeCanvas.jsx)\<close>

record Cell =
  c_color :: "string option"
  c_owner :: "string option"
  c_owner_name :: "string option"
  c_owner_avatar :: "string option"

text \<open>A row of the \<^verbatim>\<open>paints\<close> table (src/database-schema.sql).\<close>

record Row =
  row_id :: nat
  row_x :: int
  row_y :: int
  row_color :: "string option"
  row_owner :: string
  row_owner_name :: "string option"
  row_owner_avatar :: "string option"

datatype EventType = INSERT | UPDATE | DELETE

record Payload =
  eventType :: EventType
  newRow :: "Row option"
  oldRow :: "Row option"

record User =
  user_id :: string
  meta_name :: "string option"
  email :: "string option"
  meta_avatar :: "string option"

text \<open>
  \<^verbatim>\<open>user?.user_metadata?.name || user?.email?.split('@')[0] || 'Anonymous'\<close>:
  an absent or empty string falls through to the next alternative.
\<close>

definition displayName :: "User option \<Rightarrow> string" where
  "displayName u =
     (let fromMail =
            (case Option.bind u email of
               None \<Rightarrow> ''Anonymous''
             | Some e \<Rightarrow>
                 (let p = takeWhile (\<lambda>c. c \<noteq> CHR ''@'') e
                  in if p = [] then ''Anonymous'' else p))
      in case Option.bind u meta_name of
           None \<Rightarrow> fromMail
         | Some n \<Rightarrow> if n = [] then fromMail else n)"

datatype DrawOp =
    DrawPixel int int "string option"
  | ClearPixel int int

record BufferEntry =
  gridX :: int
  gridY :: int
  buf_color :: "string option"
  buf_timestamp :: int
  spendCharge :: bool

text \<open>
  The component state.  \<^verbatim>\<open>paintBuffer\<close> is a JavaScript \<^verbatim>\<open>Map\<close>,
  whose iteration order is the order of first insertion: an association list, updated in
  place by \<^const>\<open>AList.update\<close>.  \<open>drawLog\<close> records the calls of
  \<^verbatim>\<open>drawPixel\<close> and \<^verbatim>\<open>clearPixel\<close>.
\<close>

record CollabState =
  paintedCells :: "cellKey \<rightharpoonup> Cell"
  paintBuffer :: "(cellKey \<times> BufferEntry) list"
  userCharges :: int
  userCapacity :: int
  user :: "User option"
  canvasReady :: bool
  supabaseReady :: bool
  drawLog :: "DrawOp list"

definition initialCollab :: CollabState where
  "initialCollab =
     \<lparr>paintedCells = Map.empty, paintBuffer = [], userCharges = 0, userCapacity = 10,
      user = None, canvasReady = True, supabaseReady = True, drawLog = []\<rparr>"

text \<open>\<^verbatim>\<open>paintPixelInstant\<close>, lines 111-147; \<open>now\<close> is \<^verbatim>\<open>Date.now()\<close>.\<close>

definition paintPixelInstant :: "int \<Rightarrow> int \<Rightarrow> string option \<Rightarrow> int \<Rightarrow> CollabState \<Rightarrow> CollabState" where
  "paintPixelInstant gx gy col now st =
     (if \<not> canvasReady st then st
      else
        (let cellKey = (gx, gy);
             st1 = (case col of
                      None \<Rightarrow>
                        st\<lparr>paintedCells := (paintedCells st)(cellKey := None),
                           drawLog := drawLog st @ [ClearPixel gx gy]\<rparr>
                    | Some c \<Rightarrow>
                        st\<lparr>paintedCells := (paintedCells st)(cellKey \<mapsto>
                             \<lparr>c_color = Some c, c_owner = map_option user_id (user st),
                              c_owner_name = Some (displayName (user st)),
                              c_owner_avatar = Option.bind (user st) meta_avatar\<rparr>),
                           drawLog := drawLog st @ [DrawPixel gx gy (Some c)]\<rparr>)
         in st1\<lparr>paintBuffer :=
                 AList.update cellKey
                   \<lparr>gridX = gx, gridY = gy, buf_color = col, buf_timestamp = now,
                    spendCharge = (col \<noteq> None)\<rparr>
                   (paintBuffer st1)\<rparr>))"

text \<open>
  \<^verbatim>\<open>handleRealtimeUpdate\<close> of CollaborativeCanvas, lines 372-400.  Only
  \<^verbatim>\<open>INSERT\<close> and \<^verbatim>\<open>DELETE\<close> events are handled.
\<close>

definition collabRealtimeUpdate :: "Payload \<Rightarrow> CollabState \<Rightarrow> CollabState" where
  "collabRealtimeUpdate payload st =
     (if \<not> canvasReady st then st
      else
        (case (eventType payload, newRow payload, oldRow payload) of
           (INSERT, Some newPaint, _) \<Rightarrow>
             st\<lparr>paintedCells := (paintedCells st)((row_x newPaint, row_y newPaint) \<mapsto>
                    \<lparr>c_color = row_color newPaint, c_owner = Some (row_owner newPaint),
                     c_owner_name = row_owner_name newPaint,
                     c_owner_avatar = row_owner_avatar newPaint\<rparr>),
                drawLog := drawLog st @
                    [DrawPixel (row_x newPaint) (row_y newPaint) (row_color newPaint)]\<rparr>
         | (DELETE, _, Some oldPaint) \<Rightarrow>
             st\<lparr>paintedCells := (paintedCells st)((row_x oldPaint, row_y oldPaint) := None),
                drawLog := drawLog st @ [ClearPixel (row_x oldPaint) (row_y oldPaint)]\<rparr>
         | _ \<Rightarrow> st))"

section \<open>Concrete inputs\<close>

text \<open>Messages and rows for the cell \<open>(0,0)\<close>.\<close>

definition bobPaint :: "int \<Rightarrow> string \<Rightarrow> PaintUpdate" where
  "bobPaint t c =
     \<lparr>upd_x = 0, upd_y = 0, upd_color = Some c, upd_owner = ''bob'',
      upd_owner_name = None, upd_owner_avatar = None, upd_timestamp = t\<rparr>"

definition bobDelete :: PaintDelete where
  "bobDelete = \<lparr>del_x = 0, del_y = 0, del_owner = ''bob'', del_timestamp = 7\<rparr>"


definition bobRow :: Row where
  "bobRow = \<lparr>row_id = 1, row_x = 0, row_y = 0, row_color = Some ''#00ff00'',
             row_owner = ''bob'', row_owner_name = None, row_owner_avatar = None\<rparr>"

definition carolRow :: Row where
  "carolRow = \<lparr>row_id = 3, row_x = 0, row_y = 0, row_color = Some ''#0000ff'',
               row_owner = ''carol'', row_owner_name = None, row_owner_avatar = None\<rparr>"

section \<open>Stroke rasterizer (getLineCells, src/CollaborativeCanvas.jsx lines 250-278)\<close>

text \<open>
  The body of the \<^verbatim>\<open>while (true)\<close> loop.  The loop has no bound of its own, so
  it is a partial function: a run that never reaches the end point has the value
  \<open>None\<close>.  Cells are integers.
\<close>

partial_function (option) lineLoop ::
  "int \<Rightarrow> int \<Rightarrow> int \<Rightarrow> int \<Rightarrow> int \<Rightarrow> int \<Rightarrow> (int \<times> int) list \<Rightarrow> int \<Rightarrow> int \<Rightarrow> int \<Rightarrow> (int \<times> int) list option" where
  "lineLoop x1 y1 dx dy sx sy cells err x y =
     (let cells1 = cells @ [(x, y)] in
      if x = x1 \<and> y = y1 then Some cells1
      else
        (let e2 = 2 * err;
             err1 = (if e2 > - dy then err - dy else err);
             xn = (if e2 > - dy then x + sx else x);
             err2 = (if e2 < dx then err1 + dx else err1);
             yn = (if e2 < dx then y + sy else y)
         in lineLoop x1 y1 dx dy sx sy cells1 err2 xn yn))"

definition getLineCells :: "int \<Rightarrow> int \<Rightarrow> int \<Rightarrow> int \<Rightarrow> (int \<times> int) list option" where
  "getLineCells x0 y0 x1 y1 =
     (let dx = \<bar>x1 - x0\<bar>;
          dy = \<bar>y1 - y0\<bar>;
          sx = (if x0 < x1 then 1 else - 1);
          sy = (if y0 < y1 then 1 else - 1);
          err = dx - dy
      in lineLoop x1 y1 dx dy sx sy [] err x0 y0)"

declare lineLoop.simps [code]

subsection \<open>The loop seen from the end point\<close>

text \<open>
  For the proofs: the same loop, counting the steps \<open>a\<close> and \<open>b\<close> that remain on
  each axis, run for a given number of iterations.
\<close>

fun walk :: "nat \<Rightarrow> int \<Rightarrow> int \<Rightarrow> int \<Rightarrow> int \<Rightarrow> int \<Rightarrow> (int \<times> int) list" where
  "walk 0 dx dy err a b = [(a, b)]"
| "walk (Suc n) dx dy err a b =
     (a, b) # walk n dx dy
        ((if 2 * err > - dy then err - dy else err) + (if 2 * err < dx then dx else 0))
        (if 2 * err > - dy then a - 1 else a)
        (if 2 * err < dx then b - 1 else b)"

definition place :: "int \<Rightarrow> int \<Rightarrow> int \<Rightarrow> int \<Rightarrow> int \<times> int \<Rightarrow> int \<times> int" where
  "place x1 y1 sx sy p = (x1 - sx * fst p, y1 - sy * snd p)"

definition invX :: "int \<Rightarrow> int \<Rightarrow> int \<Rightarrow> int \<Rightarrow> bool" where
  "invX dx dy a b \<longleftrightarrow> 0 \<le> a \<and> 0 \<le> b \<and> dy - 2 * dx < 2 * (a * dy - b * dx) \<and> 2 * (a * dy - b * dx) < dx"

definition invY :: "int \<Rightarrow> int \<Rightarrow> int \<Rightarrow> int \<Rightarrow> bool" where
  "invY dx dy a b \<longleftrightarrow> 0 \<le> a \<and> 0 \<le> b \<and> - dy < 2 * (a * dy - b * dx) \<and> 2 * (a * dy - b * dx) < 2 * dy - dx"

definition lineWalk :: "int \<Rightarrow> int \<Rightarrow> (int \<times> int) list" where
  "lineWalk dx dy = walk (nat (max dx dy)) dx dy (dx - dy) dx dy"

text \<open>The point reflection through the midpoint of the segment.\<close>

definition reflect :: "int \<Rightarrow> int \<Rightarrow> int \<Rightarrow> int \<Rightarrow> int \<times> int \<Rightarrow> int \<times> int" where
  "reflect x0 y0 x1 y1 p = (x0 + x1 - fst p, y0 + y1 - snd p)"

section \<open>PaintGrid (src/lib/performance.ts lines 188-240)\<close>

text \<open>
  \<^verbatim>\<open>parseInt(s, 16)\<close>: leading white space, an optional sign and an optional
  \<^verbatim>\<open>0x\<close> prefix are skipped, then the longest prefix of hexadecimal digits is
  read; with no digit the result is \<^verbatim>\<open>NaN\<close>, here \<open>None\<close>.
\<close>

definition hexDigits :: "(char \<times> nat) list" where
  "hexDigits =
     [(CHR ''0'', 0), (CHR ''1'', 1), (CHR ''2'', 2), (CHR ''3'', 3), (CHR ''4'', 4),
      (CHR ''5'', 5), (CHR ''6'', 6), (CHR ''7'', 7), (CHR ''8'', 8), (CHR ''9'', 9),
      (CHR ''a'', 10), (CHR ''b'', 11), (CHR ''c'', 12), (CHR ''d'', 13), (CHR ''e'', 14),
      (CHR ''f'', 15), (CHR ''A'', 10), (CHR ''B'', 11), (CHR ''C'', 12), (CHR ''D'', 13),
      (CHR ''E'', 14), (CHR ''F'', 15)]"

definition isHexDigit :: "char \<Rightarrow> bool" where
  "isHexDigit c = (map_of hexDigits c \<noteq> None)"

definition digitValue :: "char \<Rightarrow> nat" where
  "digitValue c = (case map_of hexDigits c of None \<Rightarrow> 0 | Some v \<Rightarrow> v)"

definition isWhiteSpace :: "char \<Rightarrow> bool" where
  "isWhiteSpace c = (c \<in> set [CHR '' '', CHR 0x09, CHR 0x0A, CHR 0x0B, CHR 0x0C, CHR 0x0D])"

definition parseInt16 :: "string \<Rightarrow> int option" where
  "parseInt16 s =
     (let s1 = dropWhile isWhiteSpace s;
          neg = (case s1 of [] \<Rightarrow> False | c # r \<Rightarrow> c = CHR ''-'');
          s2 = (case s1 of [] \<Rightarrow> [] | c # r \<Rightarrow> if c = CHR ''-'' \<or> c = CHR ''+'' then r else s1);
          s3 = (case s2 of
                  a # b # r \<Rightarrow> if a = CHR ''0'' \<and> (b = CHR ''x'' \<or> b = CHR ''X'') then r else s2
                | _ \<Rightarrow> s2);
          ds = takeWhile isHexDigit s3;
          v = int (foldl (\<lambda>acc c. 16 * acc + digitValue c) 0 ds)
      in if ds = [] then None else Some (if neg then - v else v))"

text \<open>
  Storing a number into a \<^verbatim>\<open>Uint8Array\<close>: \<^verbatim>\<open>NaN\<close> becomes 0, an integer
  is reduced modulo 256.  A write outside the array is ignored, a read outside it gives
  \<^verbatim>\<open>undefined\<close>.  \<^verbatim>\<open>%\<close> takes the sign of the dividend.
\<close>

definition toUint8 :: "int option \<Rightarrow> nat" where
  "toUint8 v = (case v of None \<Rightarrow> 0 | Some n \<Rightarrow> nat (n mod 256))"

definition slice :: "nat \<Rightarrow> nat \<Rightarrow> string \<Rightarrow> string" where
  "slice i j s = take (j - i) (drop i s)"

definition jsRem :: "int \<Rightarrow> int \<Rightarrow> int" where
  "jsRem x n = (if 0 \<le> x then x mod n else - ((- x) mod n))"

type_synonym Chunk = "int \<Rightarrow> nat"

definition chunkSize :: int where "chunkSize = 1000"

definition chunkLength :: int where "chunkLength = chunkSize * chunkSize * 3"

definition newChunk :: Chunk where "newChunk = (\<lambda>i. 0)"

definition chunkSet :: "Chunk \<Rightarrow> int \<Rightarrow> nat \<Rightarrow> Chunk" where
  "chunkSet ch i v = (if 0 \<le> i \<and> i < chunkLength then ch(i := v) else ch)"

definition chunkGet :: "Chunk \<Rightarrow> int \<Rightarrow> nat option" where
  "chunkGet ch i = (if 0 \<le> i \<and> i < chunkLength then Some (ch i) else None)"

text \<open>
  The grid maps a chunk key to its array; \<^verbatim>\<open>setPaint\<close> creates the chunk
  (all zero) when it is missing.
\<close>

type_synonym PaintGrid = "cellKey \<rightharpoonup> Chunk"

definition setPaint :: "int \<Rightarrow> int \<Rightarrow> string \<Rightarrow> PaintGrid \<Rightarrow> PaintGrid" where
  "setPaint x y color grid =
     (let chunkX = x div chunkSize;
          chunkY = y div chunkSize;
          chunkKey = (chunkX, chunkY);
          chunk = (case grid chunkKey of None \<Rightarrow> newChunk | Some ch \<Rightarrow> ch);
          localX = jsRem x chunkSize;
          localY = jsRem y chunkSize;
          index = (localY * chunkSize + localX) * 3;
          r = parseInt16 (slice 1 3 color);
          g = parseInt16 (slice 3 5 color);
          b = parseInt16 (slice 5 7 color)
      in grid(chunkKey \<mapsto>
           chunkSet (chunkSet (chunkSet chunk index (toUint8 r)) (index + 1) (toUint8 g))
             (index + 2) (toUint8 b)))"

text \<open>\<^verbatim>\<open>n.toString(16).padStart(2, '0')\<close>: lower-case digits.\<close>

definition hexChar :: "nat \<Rightarrow> char" where
  "hexChar d = ''0123456789abcdef'' ! d"

function toString16 :: "nat \<Rightarrow> string" where
  "toString16 n = (if n < 16 then [hexChar n] else toString16 (n div 16) @ [hexChar (n mod 16)])"
  by pat_completeness auto
termination
  by (relation "measure id") auto

definition padStart2 :: "string \<Rightarrow> string" where
  "padStart2 s = replicate (2 - length s) (CHR ''0'') @ s"

text \<open>
  \<^verbatim>\<open>getPaint\<close>: \<^verbatim>\<open>null\<close> is \<open>Inr None\<close>; calling
  \<^verbatim>\<open>toString\<close> on an \<^verbatim>\<open>undefined\<close> array element throws.
\<close>

datatype jsError = TypeError

definition getPaint :: "int \<Rightarrow> int \<Rightarrow> PaintGrid \<Rightarrow> jsError + string option" where
  "getPaint x y grid =
     (let chunkX = x div chunkSize;
          chunkY = y div chunkSize;
          chunkKey = (chunkX, chunkY)
      in case grid chunkKey of
           None \<Rightarrow> Inr None
         | Some chunk \<Rightarrow>
             (let localX = jsRem x chunkSize;
                  localY = jsRem y chunkSize;
                  index = (localY * chunkSize + localX) * 3;
                  r = chunkGet chunk index;
                  g = chunkGet chunk (index + 1);
                  b = chunkGet chunk (index + 2)
              in if r = Some 0 \<and> g = Some 0 \<and> b = Some 0 then Inr None
                 else
                   (case (r, g, b) of
                      (Some rv, Some gv, Some bv) \<Rightarrow>
                        Inr (Some (''#'' @ padStart2 (toString16 rv) @ padStart2 (toString16 gv)
                                   @ padStart2 (toString16 bv)))
                    | _ \<Rightarrow> Inl TypeError)))"

text \<open>The lower-case spelling of a colour, and the well-formed 7-character colours.\<close>

definition lowerHex :: "char \<Rightarrow> char" where
  "lowerHex c =
     (case map_of [(CHR ''A'', CHR ''a''), (CHR ''B'', CHR ''b''), (CHR ''C'', CHR ''c''),
                   (CHR ''D'', CHR ''d''), (CHR ''E'', CHR ''e''), (CHR ''F'', CHR ''f'')] c of
        None \<Rightarrow> c
      | Some l \<Rightarrow> l)"

definition isHexColor :: "string \<Rightarrow> bool" where
  "isHexColor c = (length c = 7 \<and> c ! 0 = CHR ''#'' \<and> list_all isHexDigit (drop 1 c))"

section \<open>Grid addressing\<close>

text \<open>
  JavaScript numbers: a finite value, modelled by a real number (rounding is outside
  the model), an infinity, or \<^verbatim>\<open>NaN\<close>.
\<close>

datatype jsNumber = Num real | PosInfinity | NegInfinity | NaN

text \<open>
  \<^verbatim>\<open>Math.log\<close>: \<^verbatim>\<open>-Infinity\<close> at 0 and \<^verbatim>\<open>NaN\<close> below 0.
\<close>

definition mathLog :: "real \<Rightarrow> jsNumber" where
  "mathLog x = (if 0 < x then Num (ln x) else if x = 0 then NegInfinity else NaN)"

text \<open>
  Adding a finite constant, and multiplying or dividing by a finite positive constant
  (\<open>f\<close> is that operation on finite values): the infinities and \<^verbatim>\<open>NaN\<close>
  stay what they are.
\<close>

fun withConstant :: "(real \<Rightarrow> real) \<Rightarrow> jsNumber \<Rightarrow> jsNumber" where
  "withConstant f (Num v) = Num (f v)"
| "withConstant f PosInfinity = PosInfinity"
| "withConstant f NegInfinity = NegInfinity"
| "withConstant f NaN = NaN"

fun mathFloor :: "jsNumber \<Rightarrow> jsNumber" where
  "mathFloor (Num v) = Num (of_int \<lfloor>v\<rfloor>)"
| "mathFloor PosInfinity = PosInfinity"
| "mathFloor NegInfinity = NegInfinity"
| "mathFloor NaN = NaN"

text \<open>
  \<^verbatim>\<open>Math.min(c, v)\<close> and \<^verbatim>\<open>Math.max(c, v)\<close> for a finite constant \<open>c\<close>:
  \<^verbatim>\<open>NaN\<close> if \<open>v\<close> is \<^verbatim>\<open>NaN\<close>.
\<close>

fun mathMin :: "real \<Rightarrow> jsNumber \<Rightarrow> jsNumber" where
  "mathMin c (Num v) = Num (min c v)"
| "mathMin c PosInfinity = Num c"
| "mathMin c NegInfinity = NegInfinity"
| "mathMin c NaN = NaN"

fun mathMax :: "real \<Rightarrow> jsNumber \<Rightarrow> jsNumber" where
  "mathMax c (Num v) = Num (max c v)"
| "mathMax c PosInfinity = PosInfinity"
| "mathMax c NegInfinity = Num c"
| "mathMax c NaN = NaN"

definition CELL_SIZE_METERS :: real where
  "CELL_SIZE_METERS = 20.0375"

text \<open>
  \<^verbatim>\<open>toWebMercator\<close> and \<^verbatim>\<open>gridCoordsFromLatLng\<close>, CollaborativeCanvas
  lines 56-68, for a finite longitude and latitude.  \<^verbatim>\<open>Math.tan\<close> is the real
  tangent; the two agree wherever the cosine of the argument is not 0, which holds for
  every latitude \<open>lat\<close> with \<open>-270 < lat\<close> and \<open>lat < 90\<close>.
\<close>

definition toWebMercator :: "real \<Rightarrow> real \<Rightarrow> jsNumber \<times> jsNumber" where
  "toWebMercator lng lat =
     (let x = Num (lng * 20037508.34 / 180);
          y = withConstant (\<lambda>v. v / (pi / 180)) (mathLog (tan ((90 + lat) * pi / 360)));
          yMercator = withConstant (\<lambda>v. v * 20037508.34 / 180) y
      in (x, yMercator))"

definition gridCoordsFromLatLng :: "real \<Rightarrow> real \<Rightarrow> jsNumber \<times> jsNumber" where
  "gridCoordsFromLatLng lng lat =
     (let (x, y) = toWebMercator lng lat;
          gridX = mathFloor (withConstant (\<lambda>v. (v + 20037508.34) / CELL_SIZE_METERS) x);
          gridY = mathFloor (withConstant (\<lambda>v. (v + 20037508.34) / CELL_SIZE_METERS) y)
      in (mathMax 0 (mathMin 1999999 gridX), mathMax 0 (mathMin 1999999 gridY)))"

text \<open>A number that is an index of the grid: an integer in \<open>[0, 2000000)\<close>.\<close>

fun inGrid :: "jsNumber \<Rightarrow> bool" where
  "inGrid (Num v) = (v = of_int \<lfloor>v\<rfloor> \<and> 0 \<le> v \<and> v < 2000000)"
| "inGrid PosInfinity = False"
| "inGrid NegInfinity = False"
| "inGrid NaN = False"

text \<open>
  \<^verbatim>\<open>handleMapClick\<close>, PaintCanvas lines 425-433: the clicked longitude and latitude
  (finite numbers) are divided by the cell size and floored, and the result goes to
  \<^verbatim>\<open>handlePaint\<close>.
\<close>

definition handleMapClick ::
  "bool \<Rightarrow> string \<Rightarrow> string option \<Rightarrow> string \<Rightarrow> string \<Rightarrow> int \<Rightarrow> real \<Rightarrow> real \<Rightarrow> CanvasState \<Rightarrow> CanvasState" where
  "handleMapClick isPainting selectedColor userId userName userAvatar now lng lat st =
     (if \<not> isPainting \<or> \<not> mapReady st then st
      else
        (let x = \<lfloor>lng / CELL_SIZE_METERS\<rfloor>;
             y = \<lfloor>lat / CELL_SIZE_METERS\<rfloor>
         in handlePaint userId userName userAvatar now x y selectedColor st))"

section \<open>Persistent store (src/database-schema.sql)\<close>

text \<open>
  The \<^verbatim>\<open>paints\<close> table with its row-level security policies: anyone may select;
  insert, update and delete reach only rows whose \<^verbatim>\<open>owner\<close> is the requesting
  user (\<^verbatim>\<open>auth.uid()\<close>).  A statement that violates a policy fails as a whole; the
  clients log or ignore the error, so a failed statement leaves the table as it was.
\<close>

type_synonym Store = "Row list"

definition rowAt :: "int \<Rightarrow> int \<Rightarrow> Row \<Rightarrow> bool" where
  "rowAt x y r = (row_x r = x \<and> row_y r = y)"

text \<open>\<^verbatim>\<open>select('id').eq('x', x).eq('y', y).eq('owner', uid).single()\<close>: the row when
  exactly one matches, otherwise no data.\<close>

definition selectSingle :: "Store \<Rightarrow> int \<Rightarrow> int \<Rightarrow> string \<Rightarrow> Row option" where
  "selectSingle store x y uid =
     (case filter (\<lambda>r. rowAt x y r \<and> row_owner r = uid) store of
        [r] \<Rightarrow> Some r
      | _ \<Rightarrow> None)"

text \<open>\<^verbatim>\<open>delete()\<close> with a filter, under the policy \<^verbatim>\<open>paints_delete_owner\<close>.\<close>

definition deleteWhere :: "string \<Rightarrow> (Row \<Rightarrow> bool) \<Rightarrow> Store \<Rightarrow> Store" where
  "deleteWhere uid cond store = filter (\<lambda>r. \<not> (cond r \<and> row_owner r = uid)) store"

text \<open>
  \<^verbatim>\<open>upsert(rows, { onConflict: 'x,y' })\<close>, one
  \<^verbatim>\<open>INSERT ... ON CONFLICT (x, y) DO UPDATE\<close> statement, under the insert and
  update policies.  The statement fails as a whole, storing nothing, when a policy is
  violated and when two of its rows have the same \<^verbatim>\<open>(x, y)\<close> (a row cannot be
  affected a second time by one statement).
\<close>

definition freshId :: "Store \<Rightarrow> nat" where
  "freshId store = Suc (fold max (map row_id store) 0)"

definition upsertOne :: "Paint \<Rightarrow> Store \<Rightarrow> Store" where
  "upsertOne p store =
     (if list_ex (rowAt (paint_x p) (paint_y p)) store
      then map (\<lambda>r. if rowAt (paint_x p) (paint_y p) r
                     then r\<lparr>row_color := paint_color p, row_owner := paint_owner p,
                            row_owner_name := paint_owner_name p,
                            row_owner_avatar := paint_owner_avatar p\<rparr>
                     else r) store
      else store @ [\<lparr>row_id = freshId store, row_x = paint_x p, row_y = paint_y p,
                     row_color = paint_color p, row_owner = paint_owner p,
                     row_owner_name = paint_owner_name p,
                     row_owner_avatar = paint_owner_avatar p\<rparr>])"

definition upsertAllowed :: "string \<Rightarrow> Paint list \<Rightarrow> Store \<Rightarrow> bool" where
  "upsertAllowed uid rows store =
    (distinct (map (\<lambda>p. (paint_x p, paint_y p)) rows) \<and>
     list_all (\<lambda>p. paint_owner p = uid
                  \<and> list_all (\<lambda>r. if rowAt (paint_x p) (paint_y p) r then row_owner r = uid else True)
                       store) rows)"

definition upsert :: "string \<Rightarrow> Paint list \<Rightarrow> Store \<Rightarrow> Store" where
  "upsert uid rows store = (if upsertAllowed uid rows store then fold upsertOne rows store else store)"

section \<open>The batched write of CollaborativeCanvas (lines 150-210)\<close>

definition paintInsert :: "User \<Rightarrow> BufferEntry \<Rightarrow> Paint" where
  "paintInsert u p =
     \<lparr>paint_x = gridX p, paint_y = gridY p, paint_color = buf_color p, paint_owner = user_id u,
      paint_owner_name = Some (displayName (Some u)), paint_owner_avatar = meta_avatar u\<rparr>"

text \<open>
  The loop over the erases.  \<open>c0\<close> and \<open>cap\<close> are the values of
  \<^verbatim>\<open>userCharges\<close> and \<^verbatim>\<open>userCapacity\<close> the timer callback closed over;
  \<open>ch\<close> is the current charge count, updated by
  \<^verbatim>\<open>setUserCharges(prev => Math.min(userCapacity, prev + 1))\<close>.
\<close>

fun processErases :: "string \<Rightarrow> int \<Rightarrow> int \<Rightarrow> BufferEntry list \<Rightarrow> Store \<times> int \<Rightarrow> Store \<times> int" where
  "processErases uid c0 cap [] (store, ch) = (store, ch)"
| "processErases uid c0 cap (erase # erases) (store, ch) =
     (case selectSingle store (gridX erase) (gridY erase) uid of
        None \<Rightarrow> processErases uid c0 cap erases (store, ch)
      | Some existingPaint \<Rightarrow>
          processErases uid c0 cap erases
            (deleteWhere uid (\<lambda>r. row_id r = row_id existingPaint) store,
             if c0 < cap then min cap (ch + 1) else ch))"

text \<open>
  The timer callback.  The effect sets no timer for an empty buffer, and the callback
  returns at once without a client or a signed-in user.  The effect runs again whenever
  \<^verbatim>\<open>paintBuffer\<close>, \<^verbatim>\<open>user\<close>, \<^verbatim>\<open>userCharges\<close> or
  \<^verbatim>\<open>userCapacity\<close> changed, so the values the callback closed over are those
  of the state in which the timer fires.

  The component never calls \<^verbatim>\<open>setUser\<close>: in its own runs, which start from
  \<open>initialCollab\<close>, \<^verbatim>\<open>user\<close> stays \<^verbatim>\<open>null\<close> and the callback
  returns at the test \<^verbatim>\<open>!user\<close>.  What is proved about the rest of the
  callback is about states in which a user is set.
\<close>

definition flushBuffer :: "Store \<Rightarrow> CollabState \<Rightarrow> Store \<times> CollabState" where
  "flushBuffer store st =
     (if paintBuffer st = [] then (store, st)
      else
        (case user st of
           None \<Rightarrow> (store, st)
         | Some u \<Rightarrow>
             if \<not> supabaseReady st then (store, st)
             else
               (let batch = map snd (paintBuffer st);
                    paints = filter (\<lambda>p. buf_color p \<noteq> None) batch;
                    erases = filter (\<lambda>p. buf_color p = None) batch;
                    c0 = userCharges st;
                    cap = userCapacity st;
                    afterPaints =
                      (if paints \<noteq> []
                       then (upsert (user_id u) (map (paintInsert u) paints) store,
                             if c0 > 0 then max 0 (c0 - int (length paints)) else c0)
                       else (store, c0));
                    afterErases = processErases (user_id u) c0 cap erases afterPaints
                in (fst afterErases, st\<lparr>paintBuffer := [], userCharges := snd afterErases\<rparr>))))"

text \<open>
  What can happen to a CollaborativeCanvas session and the store it talks to: a local
  paint or erase, the batch timer, a realtime event, and other clients changing the
  store.
\<close>

datatype CollabOp =
    CPaint int int "string option" int
  | CFlush
  | CRemote Payload
  | CStore Store

fun collabStep :: "CollabOp \<Rightarrow> Store \<times> CollabState \<Rightarrow> Store \<times> CollabState" where
  "collabStep (CPaint gx gy col now) (store, st) = (store, paintPixelInstant gx gy col now st)"
| "collabStep CFlush (store, st) = flushBuffer store st"
| "collabStep (CRemote payload) (store, st) = (store, collabRealtimeUpdate payload st)"
| "collabStep (CStore store') (store, st) = (store', st)"

fun collabRun :: "CollabOp list \<Rightarrow> Store \<times> CollabState \<Rightarrow> Store \<times> CollabState" where
  "collabRun [] s = s"
| "collabRun (a # ops) s = collabRun ops (collabStep a s)"


section \<open>PaintBatcher (src/lib/performance.ts lines 125-185)\<close>

definition hashCoordinate :: "int \<Rightarrow> int \<Rightarrow> cellKey" where
  "hashCoordinate x y = (x, y)"

record PaintBatcher =
  batcher_paints :: "(cellKey \<times> PaintUpdate) list"
  batcher_deletes :: "(cellKey \<times> PaintDelete) list"
  timeoutId :: bool

definition newBatcher :: PaintBatcher where
  "newBatcher = \<lparr>batcher_paints = [], batcher_deletes = [], timeoutId = False\<rparr>"

definition scheduleBatch :: "PaintBatcher \<Rightarrow> PaintBatcher" where
  "scheduleBatch b = b\<lparr>timeoutId := True\<rparr>"

definition addPaint :: "PaintUpdate \<Rightarrow> PaintBatcher \<Rightarrow> PaintBatcher" where
  "addPaint paint b =
     scheduleBatch (b\<lparr>batcher_paints :=
        AList.update (hashCoordinate (upd_x paint) (upd_y paint)) paint (batcher_paints b)\<rparr>)"

definition addDelete :: "PaintDelete \<Rightarrow> PaintBatcher \<Rightarrow> PaintBatcher" where
  "addDelete deleteOp b =
     scheduleBatch (b\<lparr>batcher_deletes :=
        AList.update (hashCoordinate (del_x deleteOp) (del_y deleteOp)) deleteOp (batcher_deletes b)\<rparr>)"

text \<open>\<^verbatim>\<open>processBatch\<close>: the batch handed to \<^verbatim>\<open>onBatch\<close>, if any.\<close>

definition processBatch :: "PaintBatcher \<Rightarrow> PaintBatcher \<times> (PaintUpdate list \<times> PaintDelete list) option" where
  "processBatch b =
     (if batcher_paints b = [] \<and> batcher_deletes b = [] then (b, None)
      else (b\<lparr>batcher_paints := [], batcher_deletes := [], timeoutId := False\<rparr>,
            Some (map snd (batcher_paints b), map snd (batcher_deletes b))))"

datatype BatcherOp = AddPaint PaintUpdate | AddDelete PaintDelete

fun batcherStep :: "PaintBatcher \<Rightarrow> BatcherOp \<Rightarrow> PaintBatcher" where
  "batcherStep b (AddPaint p) = addPaint p b"
| "batcherStep b (AddDelete d) = addDelete d b"

definition enqueueAll :: "BatcherOp list \<Rightarrow> PaintBatcher" where
  "enqueueAll ops = foldl batcherStep newBatcher ops"

text \<open>The last paint, and the last delete, enqueued for a key.\<close>

fun paintsOf :: "BatcherOp list \<Rightarrow> PaintUpdate list" where
  "paintsOf [] = []"
| "paintsOf (AddPaint p # ops) = p # paintsOf ops"
| "paintsOf (AddDelete d # ops) = paintsOf ops"

fun deletesOf :: "BatcherOp list \<Rightarrow> PaintDelete list" where
  "deletesOf [] = []"
| "deletesOf (AddPaint p # ops) = deletesOf ops"
| "deletesOf (AddDelete d # ops) = d # deletesOf ops"

definition lastOption :: "'a list \<Rightarrow> 'a option" where
  "lastOption xs = (if xs = [] then None else Some (last xs))"

definition lastPaint :: "cellKey \<Rightarrow> BatcherOp list \<Rightarrow> PaintUpdate option" where
  "lastPaint k ops = lastOption (filter (\<lambda>p. hashCoordinate (upd_x p) (upd_y p) = k) (paintsOf ops))"

definition lastDelete :: "cellKey \<Rightarrow> BatcherOp list \<Rightarrow> PaintDelete option" where
  "lastDelete k ops = lastOption (filter (\<lambda>d. hashCoordinate (del_x d) (del_y d) = k) (deletesOf ops))"





section \<open>PixelCanvas (the component in src/PAINTING_OPTIMIZATIONS.md)\<close>




section \<open>Theorems: remote updates and the local cell cache\<close>

lemma paints_scheduleCanvasRender [simp]: "paints (scheduleCanvasRender st) = paints st"
  by (simp add: scheduleCanvasRender_def)

lemma remote_paint_applied:
  assumes "Some (upd_owner d) \<noteq> userId"
  shows "paints (handleRealtimeUpdate userId (MsgPaint d) st) (getPaintKey (upd_x d) (upd_y d)) =
         (case upd_color d of
            None \<Rightarrow> None
          | Some c \<Rightarrow> Some \<lparr>paint_x = upd_x d, paint_y = upd_y d, paint_color = Some c, paint_owner = upd_owner d,
                           paint_owner_name = upd_owner_name d, paint_owner_avatar = upd_owner_avatar d\<rparr>)"
  using assms by (simp add: handleRealtimeUpdate_def Let_def split: option.splits)

lemma remote_delete_applied:
  assumes "Some (del_owner e) \<noteq> userId"
  shows "handleRealtimeUpdate userId (MsgDelete e) st
         = scheduleCanvasRender (st\<lparr>paints := (paints st)(getPaintKey (del_x e) (del_y e) := None)\<rparr>)"
  using assms by (simp add: handleRealtimeUpdate_def Let_def)

lemma collab_insert_applied:
  assumes "canvasReady st"
  shows "paintedCells (collabRealtimeUpdate \<lparr>eventType = INSERT, newRow = Some n, oldRow = b\<rparr> st)
           (row_x n, row_y n) =
         Some \<lparr>c_color = row_color n, c_owner = Some (row_owner n),
               c_owner_name = row_owner_name n, c_owner_avatar = row_owner_avatar n\<rparr>"
  using assms by (simp add: collabRealtimeUpdate_def)

lemma collab_canvasReady [simp]: "canvasReady (collabRealtimeUpdate p st) = canvasReady st"
  by (simp add: collabRealtimeUpdate_def split: EventType.splits option.splits)

lemma collab_charges_realtime [simp]:
  "userCharges (collabRealtimeUpdate payload cst) = userCharges cst"
  by (simp add: collabRealtimeUpdate_def split: EventType.splits option.splits)

text \<open>
  C1 (as stated, refuted).  Two updates by another user to cell \<open>(0,0)\<close>, the older
  one (version 1, red) arriving after the newer one (version 2, blue): the cache ends
  with the older value.  This is so for a handler that holds the session's user id and
  for the handler the component subscribes.
\<close>

theorem C1_older_update_overwrites_newer:
  "upd_timestamp (bobPaint 1 ''#ff0000'') < upd_timestamp (bobPaint 2 ''#0000ff'')
   \<and> map_option paint_color
        (paints (handleRealtimeUpdate (Some ''alice'') (MsgPaint (bobPaint 1 ''#ff0000''))
                  (handleRealtimeUpdate (Some ''alice'') (MsgPaint (bobPaint 2 ''#0000ff''))
                     initialCanvas))
           (getPaintKey 0 0))
       = Some (Some ''#ff0000'')
   \<and> map_option paint_color
        (paints (subscribedHandler (MsgPaint (bobPaint 1 ''#ff0000''))
                  (subscribedHandler (MsgPaint (bobPaint 2 ''#0000ff'')) initialCanvas))
           (getPaintKey 0 0))
       = Some (Some ''#ff0000'')"
  by (simp add: subscribedHandler_def handleRealtimeUpdate_def bobPaint_def initialCanvas_def
      getPaintKey_def scheduleCanvasRender_def)

text \<open>
  C1 (amended).  Last arrival wins; the cache has no version field and compares
  nothing.  In PaintCanvas a paint message is applied on arrival by every handler whose
  closure holds a user id other than the message's owner, and by the handler the
  component subscribes whoever the owner is: after two such messages for one cell the
  cache holds the value of the one that arrived last (no entry if its colour is
  \<^verbatim>\<open>null\<close>), whatever the timestamps.  In CollaborativeCanvas, while the
  canvas is mounted, an \<^verbatim>\<open>INSERT\<close> event is applied on arrival: after any
  event followed by an
  \<^verbatim>\<open>INSERT\<close> event, in particular after two \<^verbatim>\<open>INSERT\<close> events for
  one cell, the cache holds the row of the \<^verbatim>\<open>INSERT\<close> event that arrived last.
\<close>

theorem C1_last_arrival_wins:
  "(Some (upd_owner d2) \<noteq> userId \<longrightarrow>
      paints (handleRealtimeUpdate userId (MsgPaint d2)
                (handleRealtimeUpdate userId (MsgPaint d1) st))
        (getPaintKey (upd_x d2) (upd_y d2)) =
      (case upd_color d2 of
         None \<Rightarrow> None
       | Some c \<Rightarrow> Some \<lparr>paint_x = upd_x d2, paint_y = upd_y d2, paint_color = Some c,
                        paint_owner = upd_owner d2, paint_owner_name = upd_owner_name d2,
                        paint_owner_avatar = upd_owner_avatar d2\<rparr>))
   \<and> paints (subscribedHandler (MsgPaint d2) (subscribedHandler (MsgPaint d1) st))
        (getPaintKey (upd_x d2) (upd_y d2)) =
      (case upd_color d2 of
         None \<Rightarrow> None
       | Some c \<Rightarrow> Some \<lparr>paint_x = upd_x d2, paint_y = upd_y d2, paint_color = Some c,
                        paint_owner = upd_owner d2, paint_owner_name = upd_owner_name d2,
                        paint_owner_avatar = upd_owner_avatar d2\<rparr>)
   \<and> (canvasReady cst \<longrightarrow>
        paintedCells
          (collabRealtimeUpdate \<lparr>eventType = INSERT, newRow = Some n2, oldRow = b2\<rparr>
             (collabRealtimeUpdate p1 cst))
          (row_x n2, row_y n2) =
        Some \<lparr>c_color = row_color n2, c_owner = Some (row_owner n2),
              c_owner_name = row_owner_name n2, c_owner_avatar = row_owner_avatar n2\<rparr>)"
proof -
  have "Some (upd_owner d2) \<noteq> (None :: string option)" by simp
  then show ?thesis
    unfolding subscribedHandler_def
    by (simp add: remote_paint_applied collab_insert_applied)
qed

text \<open>
  Blue (version 2) then red (version 1) leaves red in PaintCanvas; in
  CollaborativeCanvas bob's green row then carol's blue row leaves blue, and the two
  rows in the other order leave green.
\<close>

theorem C1_last_arrival_wins_witness:
  "Some (upd_owner (bobPaint 1 ''#ff0000'')) \<noteq> Some ''alice''
   \<and> canvasReady initialCollab
   \<and> map_option paint_color
       (paints (handleRealtimeUpdate (Some ''alice'') (MsgPaint (bobPaint 1 ''#ff0000''))
                 (handleRealtimeUpdate (Some ''alice'') (MsgPaint (bobPaint 2 ''#0000ff''))
                    initialCanvas))
          (getPaintKey 0 0)) = Some (Some ''#ff0000'')
   \<and> map_option paint_color
       (paints (subscribedHandler (MsgPaint (bobPaint 1 ''#ff0000''))
                 (subscribedHandler (MsgPaint (bobPaint 2 ''#0000ff'')) initialCanvas))
          (getPaintKey 0 0)) = Some (Some ''#ff0000'')
   \<and> map_option c_color
       (paintedCells
          (collabRealtimeUpdate \<lparr>eventType = INSERT, newRow = Some carolRow, oldRow = None\<rparr>
             (collabRealtimeUpdate \<lparr>eventType = INSERT, newRow = Some bobRow, oldRow = None\<rparr>
                initialCollab))
          (0, 0)) = Some (Some ''#0000ff'')
   \<and> map_option c_color
       (paintedCells
          (collabRealtimeUpdate \<lparr>eventType = INSERT, newRow = Some bobRow, oldRow = None\<rparr>
             (collabRealtimeUpdate \<lparr>eventType = INSERT, newRow = Some carolRow, oldRow = None\<rparr>
                initialCollab))
          (0, 0)) = Some (Some ''#00ff00'')"
proof -
  have a: "Some (upd_owner (bobPaint 1 ''#ff0000'')) \<noteq> Some ''alice''"
    by (simp add: bobPaint_def)
  have b: "canvasReady initialCollab"
    by (simp add: initialCollab_def)
  show ?thesis
    using a b
      C1_last_arrival_wins [of "bobPaint 1 ''#ff0000''" "Some ''alice''" "bobPaint 2 ''#0000ff''"
        initialCanvas initialCollab carolRow None
        "\<lparr>eventType = INSERT, newRow = Some bobRow, oldRow = None\<rparr>"]
      C1_last_arrival_wins [of "bobPaint 1 ''#ff0000''" "Some ''alice''" "bobPaint 2 ''#0000ff''"
        initialCanvas initialCollab bobRow None
        "\<lparr>eventType = INSERT, newRow = Some carolRow, oldRow = None\<rparr>"]
    by (simp add: bobPaint_def bobRow_def carolRow_def getPaintKey_def)
qed

section \<open>Theorems: self-echo\<close>



section \<open>Theorems: erasing\<close>

text \<open>
  C3 (as stated, refuted).  Cell \<open>(0,0)\<close> holds bob's paint and alice has no pending
  write; bob's delete event arrives.  The cache then has no entry for the cell: the
  entry is removed, no erased-marker value is stored.
\<close>

theorem C3_remote_delete_removes_entry:
  "map_option paint_color
     (paints (handleRealtimeUpdate (Some ''alice'') (MsgPaint (bobPaint 1 ''#ff0000'')) initialCanvas)
        (getPaintKey 0 0)) = Some (Some ''#ff0000'')
   \<and> pendingPaints
       (handleRealtimeUpdate (Some ''alice'') (MsgPaint (bobPaint 1 ''#ff0000'')) initialCanvas)
       (getPaintKey 0 0) = None
   \<and> paints
       (handleRealtimeUpdate (Some ''alice'') (MsgDelete bobDelete)
          (handleRealtimeUpdate (Some ''alice'') (MsgPaint (bobPaint 1 ''#ff0000'')) initialCanvas))
       (getPaintKey 0 0) = None
   \<and> paints
       (subscribedHandler (MsgDelete bobDelete)
          (subscribedHandler (MsgPaint (bobPaint 1 ''#ff0000'')) initialCanvas))
       (getPaintKey 0 0) = None"
  by (simp add: subscribedHandler_def handleRealtimeUpdate_def bobPaint_def bobDelete_def
      initialCanvas_def getPaintKey_def scheduleCanvasRender_def)

text \<open>
  C3 (amended).  A remote delete event removes the entry of its cell from the cache;
  no erased-marker value is stored for it.  In PaintCanvas the handler the component
  subscribes does so for every delete message, a local write pending or not, and so does
  every handler whose closure holds a user id other than the message's owner: the entry
  of the cell is removed, every other entry is left alone, and exactly one call of
  \<^verbatim>\<open>scheduleCanvasRender\<close> is made, after which one render callback is pending
  (an animation frame is requested unless one was pending) and no immediate render has
  happened; a paint message with a \<^verbatim>\<open>null\<close> colour removes the entry likewise.
  In CollaborativeCanvas, while the canvas is mounted, a \<^verbatim>\<open>DELETE\<close> event
  removes the entry and makes exactly
  one call of \<^verbatim>\<open>clearPixel\<close>, and a local erase
  (\<^verbatim>\<open>paintPixelInstant\<close> with a \<^verbatim>\<open>null\<close> colour) removes the entry.
\<close>

theorem C3_erase_deletes_entry:
  "subscribedHandler (MsgDelete e) st
     = scheduleCanvasRender (st\<lparr>paints := (paints st)(getPaintKey (del_x e) (del_y e) := None)\<rparr>)
   \<and> paints (subscribedHandler (MsgDelete e) st) (getPaintKey (del_x e) (del_y e)) = None
   \<and> (k \<noteq> getPaintKey (del_x e) (del_y e) \<longrightarrow>
        paints (subscribedHandler (MsgDelete e) st) k = paints st k)
   \<and> animationFrame (subscribedHandler (MsgDelete e) st)
   \<and> frameRequests (subscribedHandler (MsgDelete e) st)
       = (if animationFrame st then frameRequests st else frameRequests st + 1)
   \<and> immediateRenders (subscribedHandler (MsgDelete e) st) = immediateRenders st
   \<and> (Some (del_owner e) \<noteq> userId \<longrightarrow>
        handleRealtimeUpdate userId (MsgDelete e) st = subscribedHandler (MsgDelete e) st)
   \<and> (upd_color d = None \<longrightarrow>
        paints (subscribedHandler (MsgPaint d) st) (getPaintKey (upd_x d) (upd_y d)) = None)
   \<and> (upd_color d = None \<and> Some (upd_owner d) \<noteq> userId \<longrightarrow>
        paints (handleRealtimeUpdate userId (MsgPaint d) st) (getPaintKey (upd_x d) (upd_y d)) = None)
   \<and> (canvasReady cst \<longrightarrow>
        paintedCells
          (collabRealtimeUpdate \<lparr>eventType = DELETE, newRow = a, oldRow = Some r\<rparr> cst)
          (row_x r, row_y r) = None
        \<and> drawLog (collabRealtimeUpdate \<lparr>eventType = DELETE, newRow = a, oldRow = Some r\<rparr> cst)
            = drawLog cst @ [ClearPixel (row_x r) (row_y r)]
        \<and> paintedCells (paintPixelInstant gx gy None now cst) (gx, gy) = None)"
proof -
  have n: "Some (del_owner e) \<noteq> (None :: string option)" "Some (upd_owner d) \<noteq> (None :: string option)"
    by simp_all
  have s: "subscribedHandler (MsgDelete e) st
     = scheduleCanvasRender (st\<lparr>paints := (paints st)(getPaintKey (del_x e) (del_y e) := None)\<rparr>)"
    unfolding subscribedHandler_def by (rule remote_delete_applied [OF n(1)])
  have g: "handleRealtimeUpdate userId (MsgDelete e) st = subscribedHandler (MsgDelete e) st"
    if "Some (del_owner e) \<noteq> userId"
    using that by (simp add: s remote_delete_applied)
  have p1: "paints (subscribedHandler (MsgPaint d) st) (getPaintKey (upd_x d) (upd_y d)) = None"
    if "upd_color d = None"
    unfolding subscribedHandler_def using that by (simp add: remote_paint_applied [OF n(2)])
  have p2: "paints (handleRealtimeUpdate userId (MsgPaint d) st) (getPaintKey (upd_x d) (upd_y d)) = None"
    if "upd_color d = None" "Some (upd_owner d) \<noteq> userId"
    using that by (simp add: remote_paint_applied)
  have c: "paintedCells
          (collabRealtimeUpdate \<lparr>eventType = DELETE, newRow = a, oldRow = Some r\<rparr> cst)
          (row_x r, row_y r) = None
        \<and> drawLog (collabRealtimeUpdate \<lparr>eventType = DELETE, newRow = a, oldRow = Some r\<rparr> cst)
            = drawLog cst @ [ClearPixel (row_x r) (row_y r)]
        \<and> paintedCells (paintPixelInstant gx gy None now cst) (gx, gy) = None"
    if "canvasReady cst"
    using that by (simp add: collabRealtimeUpdate_def paintPixelInstant_def Let_def)
  have r: "paints (subscribedHandler (MsgDelete e) st) (getPaintKey (del_x e) (del_y e)) = None"
    "k \<noteq> getPaintKey (del_x e) (del_y e) \<longrightarrow> paints (subscribedHandler (MsgDelete e) st) k = paints st k"
    "animationFrame (subscribedHandler (MsgDelete e) st)"
    "frameRequests (subscribedHandler (MsgDelete e) st)
       = (if animationFrame st then frameRequests st else frameRequests st + 1)"
    "immediateRenders (subscribedHandler (MsgDelete e) st) = immediateRenders st"
    unfolding s by (simp_all add: scheduleCanvasRender_def)
  from s r g p1 p2 c show ?thesis by (intro conjI impI) simp_all
qed

text \<open>
  bob's paint of cell \<open>(0,0)\<close> and then bob's delete event, delivered to the
  subscribed handler and to a handler holding alice's id; \<open>(1,1)\<close> is another cell.
\<close>

theorem C3_erase_deletes_entry_witness:
  "(1, 1) \<noteq> getPaintKey (del_x bobDelete) (del_y bobDelete)
   \<and> Some (del_owner bobDelete) \<noteq> Some ''alice''
   \<and> upd_color (bobPaint 3 ''x''\<lparr>upd_color := None\<rparr>) = None
   \<and> Some (upd_owner (bobPaint 3 ''x''\<lparr>upd_color := None\<rparr>)) \<noteq> Some ''alice''
   \<and> canvasReady initialCollab
   \<and> paints
       (subscribedHandler (MsgDelete bobDelete)
          (subscribedHandler (MsgPaint (bobPaint 1 ''#ff0000'')) initialCanvas))
       (getPaintKey 0 0) = None
   \<and> frameRequests
       (subscribedHandler (MsgDelete bobDelete)
          (subscribedHandler (MsgPaint (bobPaint 1 ''#ff0000'')) initialCanvas))
     = 1
   \<and> animationFrame
       (subscribedHandler (MsgDelete bobDelete)
          (subscribedHandler (MsgPaint (bobPaint 1 ''#ff0000'')) initialCanvas))
   \<and> handleRealtimeUpdate (Some ''alice'') (MsgDelete bobDelete)
          (subscribedHandler (MsgPaint (bobPaint 1 ''#ff0000'')) initialCanvas)
     = subscribedHandler (MsgDelete bobDelete)
          (subscribedHandler (MsgPaint (bobPaint 1 ''#ff0000'')) initialCanvas)
   \<and> drawLog (collabRealtimeUpdate \<lparr>eventType = DELETE, newRow = None, oldRow = Some bobRow\<rparr>
                initialCollab) = [ClearPixel 0 0]"
proof -
  have a: "(1, 1) \<noteq> getPaintKey (del_x bobDelete) (del_y bobDelete)"
    "Some (del_owner bobDelete) \<noteq> Some ''alice''"
    by (simp_all add: bobDelete_def getPaintKey_def)
  have b: "Some (upd_owner (bobPaint 3 ''x''\<lparr>upd_color := None\<rparr>)) \<noteq> Some ''alice''"
    by (simp add: bobPaint_def)
  have c: "upd_color (bobPaint 3 ''x''\<lparr>upd_color := None\<rparr>) = None"
    by simp
  have d: "canvasReady initialCollab"
    by (simp add: initialCollab_def)
  have f: "animationFrame (subscribedHandler (MsgPaint (bobPaint 1 ''#ff0000'')) initialCanvas)"
    "frameRequests (subscribedHandler (MsgPaint (bobPaint 1 ''#ff0000'')) initialCanvas) = 1"
    by (simp_all add: subscribedHandler_def handleRealtimeUpdate_def bobPaint_def
        scheduleCanvasRender_def initialCanvas_def Let_def)
  show ?thesis
    using a b c d f
      C3_erase_deletes_entry [of bobDelete
        "subscribedHandler (MsgPaint (bobPaint 1 ''#ff0000'')) initialCanvas"
        "(1, 1)" "Some ''alice''" "bobPaint 3 ''x''\<lparr>upd_color := None\<rparr>"
        initialCollab None bobRow 0 0 0]
    by (simp add: bobDelete_def bobRow_def getPaintKey_def initialCollab_def
        scheduleCanvasRender_def)
qed

section \<open>Theorems: stroke rasterizer\<close>

lemma invX_zero: assumes "invX dx dy 0 b" "0 \<le> dy" "0 < dx" shows "b = 0"
proof -
  from assms have b0: "0 \<le> b" and l: "dy - 2 * dx < 2 * (- (b * dx))"
    by (auto simp: invX_def)
  have "b < 1"
  proof (rule ccontr)
    assume "\<not> b < 1"
    then have "1 \<le> b" by simp
    then have "1 * dx \<le> b * dx" using \<open>0 < dx\<close> by (intro mult_right_mono) auto
    with l \<open>0 \<le> dy\<close> show False by simp
  qed
  with b0 show ?thesis by simp
qed

lemma invX_stepY_pos:
  assumes "invX dx dy a b" "0 \<le> dy" "0 < dx" "1 \<le> a"
    and "2 * (dx - dy + a * dy - b * dx) < dx"
  shows "1 \<le> b"
proof (rule ccontr)
  assume "\<not> 1 \<le> b"
  with assms have "b = 0" by (auto simp: invX_def)
  with assms(5) have "dx + 2 * (a * dy) < 2 * dy" by simp
  moreover have "1 * dy \<le> a * dy" using \<open>1 \<le> a\<close> \<open>0 \<le> dy\<close> by (intro mult_right_mono) auto
  ultimately show False using \<open>0 < dx\<close> by simp
qed

lemma invX_step:
  assumes "invX dx dy a b" "0 \<le> dy" "dy \<le> dx" "0 < dx" "1 \<le> a"
    and "err = dx - dy + a * dy - b * dx"
  shows "2 * err > - dy"
    and "invX dx dy (a - 1) (if 2 * err < dx then b - 1 else b)"
    and "(if 2 * err > - dy then err - dy else err) + (if 2 * err < dx then dx else 0)
         = dx - dy + (a - 1) * dy - (if 2 * err < dx then b - 1 else b) * dx"
proof -
  show x: "2 * err > - dy" using assms by (simp add: invX_def)
  have "1 \<le> b" if "2 * err < dx"
    using invX_stepY_pos [OF assms(1,2,4,5)] that assms(6) by simp
  then show "invX dx dy (a - 1) (if 2 * err < dx then b - 1 else b)"
    using assms by (auto simp: invX_def algebra_simps)
  show "(if 2 * err > - dy then err - dy else err) + (if 2 * err < dx then dx else 0)
         = dx - dy + (a - 1) * dy - (if 2 * err < dx then b - 1 else b) * dx"
    using x assms(6) by (simp add: algebra_simps)
qed

lemma invY_zero: assumes "invY dx dy a 0" "0 \<le> dx" "0 < dy" shows "a = 0"
proof -
  from assms have a0: "0 \<le> a" and l: "2 * (a * dy) < 2 * dy - dx"
    by (auto simp: invY_def)
  have "a < 1"
  proof (rule ccontr)
    assume "\<not> a < 1"
    then have "1 \<le> a" by simp
    then have "1 * dy \<le> a * dy" using \<open>0 < dy\<close> by (intro mult_right_mono) auto
    with l \<open>0 \<le> dx\<close> show False by simp
  qed
  with a0 show ?thesis by simp
qed

lemma invY_stepX_pos:
  assumes "invY dx dy a b" "0 \<le> dx" "0 < dy" "1 \<le> b"
    and "2 * (dx - dy + a * dy - b * dx) > - dy"
  shows "1 \<le> a"
proof (rule ccontr)
  assume "\<not> 1 \<le> a"
  with assms have "a = 0" by (auto simp: invY_def)
  with assms(5) have "2 * (b * dx) + dy < 2 * dx" by simp
  moreover have "1 * dx \<le> b * dx" using \<open>1 \<le> b\<close> \<open>0 \<le> dx\<close> by (intro mult_right_mono) auto
  ultimately show False using \<open>0 < dy\<close> by simp
qed

lemma invY_step:
  assumes "invY dx dy a b" "0 \<le> dx" "dx < dy" "1 \<le> b"
    and "err = dx - dy + a * dy - b * dx"
  shows "2 * err < dx"
    and "invY dx dy (if 2 * err > - dy then a - 1 else a) (b - 1)"
    and "(if 2 * err > - dy then err - dy else err) + (if 2 * err < dx then dx else 0)
         = dx - dy + (if 2 * err > - dy then a - 1 else a) * dy - (b - 1) * dx"
proof -
  have dy: "0 < dy" using assms by simp
  show y: "2 * err < dx" using assms by (simp add: invY_def)
  have "1 \<le> a" if "2 * err > - dy"
    using invY_stepX_pos [OF assms(1,2) dy assms(4)] that assms(5) by simp
  then show "invY dx dy (if 2 * err > - dy then a - 1 else a) (b - 1)"
    using assms by (auto simp: invY_def algebra_simps)
  show "(if 2 * err > - dy then err - dy else err) + (if 2 * err < dx then dx else 0)
         = dx - dy + (if 2 * err > - dy then a - 1 else a) * dy - (b - 1) * dx"
    using y assms(5) by (simp add: algebra_simps)
qed


lemma place_zero [simp]: "place x1 y1 sx sy (0, 0) = (x1, y1)"
  by (simp add: place_def)

lemma lineLoop_walkX:
  assumes "sx \<noteq> 0" "0 \<le> dy" "dy \<le> dx" "0 < dx"
    and "invX dx dy a b" "n = nat a" "err = dx - dy + a * dy - b * dx"
  shows "lineLoop x1 y1 dx dy sx sy cells err (x1 - sx * a) (y1 - sy * b)
         = Some (cells @ map (place x1 y1 sx sy) (walk n dx dy err a b))"
  using assms(5-7)
proof (induction n arbitrary: a b err cells)
  case 0
  then have a: "a = 0" by (simp add: invX_def)
  with 0 have b: "b = 0" using invX_zero assms(2,4) by blast
  show ?case unfolding a b by (subst lineLoop.simps) simp
next
  case (Suc n)
  then have a1: "1 \<le> a" by simp
  note st = invX_step [OF Suc.prems(1) assms(2,3,4) a1 Suc.prems(3)]
  let ?b = "if 2 * err < dx then b - 1 else b"
  let ?err = "(if 2 * err > - dy then err - dy else err) + (if 2 * err < dx then dx else 0)"
  have ne: "x1 - sx * a \<noteq> x1" using a1 assms(1) by simp
  have n: "n = nat (a - 1)" using Suc.prems(2) by simp
  have ih: "lineLoop x1 y1 dx dy sx sy (cells @ [(x1 - sx * a, y1 - sy * b)]) ?err
              (x1 - sx * (a - 1)) (y1 - sy * ?b)
            = Some ((cells @ [(x1 - sx * a, y1 - sy * b)])
                    @ map (place x1 y1 sx sy) (walk n dx dy ?err (a - 1) ?b))"
    by (rule Suc.IH [OF st(2) n st(3)])
  have step: "lineLoop x1 y1 dx dy sx sy cells err (x1 - sx * a) (y1 - sy * b)
              = lineLoop x1 y1 dx dy sx sy (cells @ [(x1 - sx * a, y1 - sy * b)]) ?err
                  (x1 - sx * (a - 1)) (y1 - sy * ?b)"
    by (subst lineLoop.simps) (use ne st(1) in \<open>auto simp: Let_def algebra_simps\<close>)
  have "walk (Suc n) dx dy err a b = (a, b) # walk n dx dy ?err (a - 1) ?b"
    using st(1) by simp
  then show ?case
    unfolding step ih by (simp add: place_def)
qed

lemma lineLoop_walkY:
  assumes "sy \<noteq> 0" "0 \<le> dx" "dx < dy"
    and "invY dx dy a b" "n = nat b" "err = dx - dy + a * dy - b * dx"
  shows "lineLoop x1 y1 dx dy sx sy cells err (x1 - sx * a) (y1 - sy * b)
         = Some (cells @ map (place x1 y1 sx sy) (walk n dx dy err a b))"
  using assms(4-6)
proof (induction n arbitrary: a b err cells)
  case 0
  have dy: "0 < dy" using assms by simp
  from 0 have b: "b = 0" by (simp add: invY_def)
  with 0 have a: "a = 0" using invY_zero assms(2) dy by blast
  show ?case unfolding a b by (subst lineLoop.simps) simp
next
  case (Suc n)
  then have b1: "1 \<le> b" by simp
  note st = invY_step [OF Suc.prems(1) assms(2,3) b1 Suc.prems(3)]
  let ?a = "if 2 * err > - dy then a - 1 else a"
  let ?err = "(if 2 * err > - dy then err - dy else err) + (if 2 * err < dx then dx else 0)"
  have ne: "y1 - sy * b \<noteq> y1" using b1 assms(1) by simp
  have n: "n = nat (b - 1)" using Suc.prems(2) by simp
  have ih: "lineLoop x1 y1 dx dy sx sy (cells @ [(x1 - sx * a, y1 - sy * b)]) ?err
              (x1 - sx * ?a) (y1 - sy * (b - 1))
            = Some ((cells @ [(x1 - sx * a, y1 - sy * b)])
                    @ map (place x1 y1 sx sy) (walk n dx dy ?err ?a (b - 1)))"
    by (rule Suc.IH [OF st(2) n st(3)])
  have step: "lineLoop x1 y1 dx dy sx sy cells err (x1 - sx * a) (y1 - sy * b)
              = lineLoop x1 y1 dx dy sx sy (cells @ [(x1 - sx * a, y1 - sy * b)]) ?err
                  (x1 - sx * ?a) (y1 - sy * (b - 1))"
    by (subst lineLoop.simps) (use ne st(1) in \<open>auto simp: Let_def algebra_simps\<close>)
  have "walk (Suc n) dx dy err a b = (a, b) # walk n dx dy ?err ?a (b - 1)"
    using st(1) by simp
  then show ?case
    unfolding step ih by (simp add: place_def)
qed


lemma walk_length [simp]: "length (walk n dx dy err a b) = Suc n"
  by (induction n arbitrary: err a b) auto

lemma walk_hd [simp]: "hd (walk n dx dy err a b) = (a, b)"
  by (cases n) auto

lemma walk_boundsX:
  assumes "0 \<le> dy" "dy \<le> dx" "0 < dx"
    and "invX dx dy a b" "n = nat a" "err = dx - dy + a * dy - b * dx"
  shows "last (walk n dx dy err a b) = (0, 0)
         \<and> (\<forall>p \<in> set (walk n dx dy err a b). 0 \<le> fst p \<and> fst p \<le> a \<and> 0 \<le> snd p \<and> snd p \<le> b)"
  using assms(4-6)
proof (induction n arbitrary: a b err)
  case 0
  then have a: "a = 0" by (simp add: invX_def)
  with 0 have b: "b = 0" using invX_zero assms(1,3) by blast
  show ?case by (simp add: a b)
next
  case (Suc n)
  then have a1: "1 \<le> a" by simp
  note st = invX_step [OF Suc.prems(1) assms(1,2,3) a1 Suc.prems(3)]
  let ?b = "if 2 * err < dx then b - 1 else b"
  let ?err = "(if 2 * err > - dy then err - dy else err) + (if 2 * err < dx then dx else 0)"
  have n: "n = nat (a - 1)" using Suc.prems(2) by simp
  have w: "walk (Suc n) dx dy err a b = (a, b) # walk n dx dy ?err (a - 1) ?b"
    using st(1) by simp
  have b0: "0 \<le> b" using Suc.prems(1) by (simp add: invX_def)
  have ne: "walk n dx dy ?err (a - 1) ?b \<noteq> []"
    by (cases n) simp_all
  from Suc.IH [OF st(2) n st(3)] show ?case
    unfolding w using a1 b0 ne by (auto split: if_splits)
qed

lemma walk_boundsY:
  assumes "0 \<le> dx" "dx < dy"
    and "invY dx dy a b" "n = nat b" "err = dx - dy + a * dy - b * dx"
  shows "last (walk n dx dy err a b) = (0, 0)
         \<and> (\<forall>p \<in> set (walk n dx dy err a b). 0 \<le> fst p \<and> fst p \<le> a \<and> 0 \<le> snd p \<and> snd p \<le> b)"
  using assms(3-5)
proof (induction n arbitrary: a b err)
  case 0
  have dy: "0 < dy" using assms by simp
  from 0 have b: "b = 0" by (simp add: invY_def)
  with 0 have a: "a = 0" using invY_zero assms(1) dy by blast
  show ?case by (simp add: a b)
next
  case (Suc n)
  then have b1: "1 \<le> b" by simp
  note st = invY_step [OF Suc.prems(1) assms(1,2) b1 Suc.prems(3)]
  let ?a = "if 2 * err > - dy then a - 1 else a"
  let ?err = "(if 2 * err > - dy then err - dy else err) + (if 2 * err < dx then dx else 0)"
  have n: "n = nat (b - 1)" using Suc.prems(2) by simp
  have w: "walk (Suc n) dx dy err a b = (a, b) # walk n dx dy ?err ?a (b - 1)"
    using st(1) by simp
  have a0: "0 \<le> a" using Suc.prems(1) by (simp add: invY_def)
  have ne: "walk n dx dy ?err ?a (b - 1) \<noteq> []"
    by (cases n) simp_all
  from Suc.IH [OF st(2) n st(3)] show ?case
    unfolding w using b1 a0 ne by (auto split: if_splits)
qed

lemma invX_start: "0 \<le> dy \<Longrightarrow> dy \<le> dx \<Longrightarrow> 0 < dx \<Longrightarrow> invX dx dy dx dy"
  by (simp add: invX_def)

lemma invY_start: "0 \<le> dx \<Longrightarrow> dx < dy \<Longrightarrow> invY dx dy dx dy"
  by (simp add: invY_def)

lemma lineWalk_props:
  assumes "0 \<le> dx" "0 \<le> dy"
  shows "length (lineWalk dx dy) = nat (max dx dy) + 1"
    and "hd (lineWalk dx dy) = (dx, dy)"
    and "last (lineWalk dx dy) = (0, 0)"
    and "\<forall>p \<in> set (lineWalk dx dy). 0 \<le> fst p \<and> fst p \<le> dx \<and> 0 \<le> snd p \<and> snd p \<le> dy"
proof -
  show "length (lineWalk dx dy) = nat (max dx dy) + 1" "hd (lineWalk dx dy) = (dx, dy)"
    by (simp_all add: lineWalk_def)
  consider "dx = 0" "dy = 0" | "dy \<le> dx" "0 < dx" | "dx < dy"
    using assms by linarith
  then have "last (lineWalk dx dy) = (0, 0)
      \<and> (\<forall>p \<in> set (lineWalk dx dy). 0 \<le> fst p \<and> fst p \<le> dx \<and> 0 \<le> snd p \<and> snd p \<le> dy)"
  proof cases
    case 1
    then show ?thesis by (simp add: lineWalk_def)
  next
    case 2
    have i: "invX dx dy dx dy" by (rule invX_start [OF assms(2) 2])
    have m: "nat (max dx dy) = nat dx" using 2 by simp
    show ?thesis
      unfolding lineWalk_def m
      by (rule walk_boundsX [OF assms(2) 2 i refl]) simp
  next
    case 3
    have i: "invY dx dy dx dy" by (rule invY_start [OF assms(1) 3])
    have m: "nat (max dx dy) = nat dy" using 3 by simp
    show ?thesis
      unfolding lineWalk_def m
      by (rule walk_boundsY [OF assms(1) 3 i refl]) simp
  qed
  then show "last (lineWalk dx dy) = (0, 0)"
    and "\<forall>p \<in> set (lineWalk dx dy). 0 \<le> fst p \<and> fst p \<le> dx \<and> 0 \<le> snd p \<and> snd p \<le> dy"
    by blast+
qed

lemma getLineCells_walk:
  "getLineCells x0 y0 x1 y1 =
     Some (map (place x1 y1 (if x0 < x1 then 1 else - 1) (if y0 < y1 then 1 else - 1))
             (lineWalk \<bar>x1 - x0\<bar> \<bar>y1 - y0\<bar>))"
proof -
  let ?dx = "\<bar>x1 - x0\<bar>" and ?dy = "\<bar>y1 - y0\<bar>"
  let ?sx = "if x0 < x1 then 1 else - 1 :: int" and ?sy = "if y0 < y1 then 1 else - 1 :: int"
  have x0: "x0 = x1 - ?sx * ?dx" by simp
  have y0: "y0 = y1 - ?sy * ?dy" by simp
  have g: "getLineCells x0 y0 x1 y1
           = lineLoop x1 y1 ?dx ?dy ?sx ?sy [] (?dx - ?dy) (x1 - ?sx * ?dx) (y1 - ?sy * ?dy)"
    unfolding getLineCells_def Let_def using x0 y0 by simp
  consider "?dx = 0" "?dy = 0" | "?dy \<le> ?dx" "0 < ?dx" | "?dx < ?dy"
    by linarith
  then show ?thesis
  proof cases
    case 1
    then have "x0 = x1" "y0 = y1" by simp_all
    then show ?thesis
      by (simp add: getLineCells_def lineWalk_def lineLoop.simps [of x1 y1 _ _ _ _ _ _ x1 y1])
  next
    case 2
    have i: "invX ?dx ?dy ?dx ?dy" by (rule invX_start [OF _ 2]) simp
    have m: "nat (max ?dx ?dy) = nat ?dx" using 2 by simp
    have sx: "?sx \<noteq> 0" by simp
    show ?thesis
      unfolding g lineWalk_def m
      using lineLoop_walkX [OF sx _ 2 i refl, of "?dx - ?dy" x1 y1 ?sy "[]"]
      by simp
  next
    case 3
    have i: "invY ?dx ?dy ?dx ?dy" by (rule invY_start [OF _ 3]) simp
    have m: "nat (max ?dx ?dy) = nat ?dy" using 3 by simp
    have sy: "?sy \<noteq> 0" by simp
    show ?thesis
      unfolding g lineWalk_def m
      using lineLoop_walkY [OF sy _ 3 i refl, of "?dx - ?dy" x1 y1 ?sx "[]"]
      by simp
  qed
qed

text \<open>
  C5.  For all integer end points the loop terminates, and the sequence it returns starts
  at the first end point, ends at the second, contains both and has
  \<open>max(|x1-x0|, |y1-y0|) + 1\<close> cells; the stroke from \<open>(0,0)\<close> to \<open>(3,1)\<close>
  is \<open>(0,0), (1,0), (2,1), (3,1)\<close>.
\<close>

theorem C5_line_endpoints_length:
  "(\<exists>cells. getLineCells x0 y0 x1 y1 = Some cells
      \<and> length cells = nat (max \<bar>x1 - x0\<bar> \<bar>y1 - y0\<bar>) + 1
      \<and> hd cells = (x0, y0) \<and> last cells = (x1, y1)
      \<and> (x0, y0) \<in> set cells \<and> (x1, y1) \<in> set cells)
   \<and> getLineCells 0 0 3 1 = Some [(0, 0), (1, 0), (2, 1), (3, 1)]"
proof -
  let ?dx = "\<bar>x1 - x0\<bar>" and ?dy = "\<bar>y1 - y0\<bar>"
  let ?sx = "if x0 < x1 then 1 else - 1 :: int" and ?sy = "if y0 < y1 then 1 else - 1 :: int"
  let ?W = "lineWalk ?dx ?dy"
  let ?cells = "map (place x1 y1 ?sx ?sy) ?W"
  note p = lineWalk_props [of ?dx ?dy, simplified]
  have ne: "?W \<noteq> []" using p(1) by auto
  have h: "hd ?cells = (x0, y0)"
    using ne p(2) by (simp add: hd_map place_def)
  have l: "last ?cells = (x1, y1)"
    using ne p(3) by (simp add: last_map)
  have ne': "?cells \<noteq> []" using ne by simp
  have "getLineCells x0 y0 x1 y1 = Some ?cells" by (rule getLineCells_walk)
  moreover have "length ?cells = nat (max ?dx ?dy) + 1" using p(1) by simp
  moreover have "(x0, y0) \<in> set ?cells" using hd_in_set [OF ne'] h by simp
  moreover have "(x1, y1) \<in> set ?cells" using last_in_set [OF ne'] l by simp
  moreover have "getLineCells 0 0 3 1 = Some [(0, 0), (1, 0), (2, 1), (3, 1)]"
    by code_simp
  ultimately show ?thesis using h l by blast
qed

theorem C5_line_endpoints_length_witness:
  "\<exists>cells. getLineCells 0 0 (- 4) 7 = Some cells \<and> length cells = 8
      \<and> hd cells = (0, 0) \<and> last cells = (- 4, 7)"
  using C5_line_endpoints_length [of 0 0 "- 4" 7] by auto

text \<open>
  C6 (as stated, refuted).  The stroke from \<open>(0,0)\<close> to \<open>(2,1)\<close> passes through
  \<open>(1,0)\<close>; the stroke from \<open>(2,1)\<close> to \<open>(0,0)\<close> passes through \<open>(1,1)\<close>.
  The second is not the reverse of the first, and the two do not cover the same cells.
\<close>

theorem C6_reversed_stroke_differs:
  "getLineCells 0 0 2 1 = Some [(0, 0), (1, 0), (2, 1)]
   \<and> map_option rev (getLineCells 2 1 0 0) = Some [(0, 0), (1, 1), (2, 1)]"
  by code_simp

text \<open>
  C6 (amended).  Swapping the end points yields the point reflection of the stroke
  through the midpoint of the segment: the k-th cell of the stroke from \<open>(x1,y1)\<close> to
  \<open>(x0,y0)\<close> is \<open>(x0 + x1 - x, y0 + y1 - y)\<close> for the k-th cell \<open>(x,y)\<close> of the
  stroke from \<open>(x0,y0)\<close> to \<open>(x1,y1)\<close>.
\<close>

theorem C6_swapped_stroke_is_reflection:
  "getLineCells x1 y1 x0 y0 = map_option (map (reflect x0 y0 x1 y1)) (getLineCells x0 y0 x1 y1)"
proof -
  let ?dx = "\<bar>x1 - x0\<bar>" and ?dy = "\<bar>y1 - y0\<bar>"
  let ?W = "lineWalk ?dx ?dy"
  note p = lineWalk_props(4) [of ?dx ?dy, simplified]
  have d: "\<bar>x0 - x1\<bar> = ?dx" "\<bar>y0 - y1\<bar> = ?dy" by simp_all
  have "place x0 y0 (if x1 < x0 then 1 else - 1) (if y1 < y0 then 1 else - 1) q
        = reflect x0 y0 x1 y1 (place x1 y1 (if x0 < x1 then 1 else - 1) (if y0 < y1 then 1 else - 1) q)"
    if "q \<in> set ?W" for q
  proof -
    from p that have b: "0 \<le> fst q" "fst q \<le> ?dx" "0 \<le> snd q" "snd q \<le> ?dy" by auto
    have fx: "fst q = 0" if "x0 = x1" using b that by simp
    have fy: "snd q = 0" if "y0 = y1" using b that by simp
    show ?thesis
      using fx fy by (cases "x0 = x1"; cases "y0 = y1") (auto simp: place_def reflect_def)
  qed
  then show ?thesis
    unfolding getLineCells_walk d by simp
qed

theorem C6_swapped_stroke_is_reflection_witness:
  "getLineCells 2 1 0 0 = Some [(2, 1), (1, 1), (0, 0)]
   \<and> map (reflect 0 0 2 1) [(0, 0), (1, 0), (2, 1)] = [(2, 1), (1, 1), (0, 0)]"
proof -
  have "getLineCells 0 0 2 1 = Some [(0, 0), (1, 0), (2, 1)]" by code_simp
  then show ?thesis
    using C6_swapped_stroke_is_reflection [of 2 1 0 0] by (simp add: reflect_def)
qed

section \<open>Theorems: PaintGrid\<close>

lemma hexDigit_cases:
  assumes "isHexDigit c"
  shows "c \<in> set ''0123456789abcdefABCDEF''"
  using assms by (auto simp: isHexDigit_def hexDigits_def split: if_splits)

lemma hexDigit_facts:
  assumes "isHexDigit c"
  shows "\<not> isWhiteSpace c" "c \<noteq> CHR ''-''" "c \<noteq> CHR ''+''" "c \<noteq> CHR ''x''" "c \<noteq> CHR ''X''"
    "digitValue c < 16" "hexChar (digitValue c) = lowerHex c" "digitValue c = 0 \<longleftrightarrow> c = CHR ''0''"
  using hexDigit_cases [OF assms]
  by (auto simp: isWhiteSpace_def digitValue_def hexDigits_def hexChar_def lowerHex_def)

lemma parseInt16_two:
  assumes "isHexDigit a" "isHexDigit b"
  shows "parseInt16 [a, b] = Some (int (16 * digitValue a + digitValue b))"
  using assms hexDigit_facts(1-5) [OF assms(1)] hexDigit_facts(1-5) [OF assms(2)]
  by (simp add: parseInt16_def Let_def)

lemma toString16_byte:
  assumes "n < 256"
  shows "padStart2 (toString16 n) = [hexChar (n div 16), hexChar (n mod 16)]"
proof (cases "n < 16")
  case True
  then show ?thesis by (simp add: padStart2_def hexChar_def)
next
  case False
  with assms have "n div 16 < 16" by simp
  with False show ?thesis
    by (subst toString16.simps) (simp add: padStart2_def)
qed

lemma byte_roundtrip:
  assumes "isHexDigit a" "isHexDigit b"
  shows "padStart2 (toString16 (toUint8 (parseInt16 [a, b]))) = [lowerHex a, lowerHex b]"
    and "toUint8 (parseInt16 [a, b]) = 0 \<longleftrightarrow> a = CHR ''0'' \<and> b = CHR ''0''"
proof -
  let ?n = "16 * digitValue a + digitValue b"
  note fa = hexDigit_facts(6-8) [OF assms(1)] and fb = hexDigit_facts(6-8) [OF assms(2)]
  have n: "?n < 256" using fa(1) fb(1) by simp
  have u: "toUint8 (parseInt16 [a, b]) = ?n"
    using n by (simp add: parseInt16_two [OF assms] toUint8_def nat_mod_distrib del: of_nat_add of_nat_mult)
  have d: "?n div 16 = digitValue a" "?n mod 16 = digitValue b" using fa(1) fb(1) by simp_all
  show "padStart2 (toString16 (toUint8 (parseInt16 [a, b]))) = [lowerHex a, lowerHex b]"
    unfolding u toString16_byte [OF n] d using fa(2) fb(2) by simp
  show "toUint8 (parseInt16 [a, b]) = 0 \<longleftrightarrow> a = CHR ''0'' \<and> b = CHR ''0''"
    unfolding u using fa(3) fb(3) by simp
qed

lemma hexColor_shape:
  assumes "isHexColor c"
  obtains a1 a2 a3 a4 a5 a6 where "c = [CHR ''#'', a1, a2, a3, a4, a5, a6]"
    "isHexDigit a1" "isHexDigit a2" "isHexDigit a3" "isHexDigit a4" "isHexDigit a5" "isHexDigit a6"
proof -
  from assms have l: "length c = 7" by (simp add: isHexColor_def)
  then obtain c0 a1 a2 a3 a4 a5 a6 where c: "c = [c0, a1, a2, a3, a4, a5, a6]"
    by (auto simp: length_Suc_conv numeral_eq_Suc)
  with assms show ?thesis
    by (intro that [of a1 a2 a3 a4 a5 a6]) (auto simp: isHexColor_def)
qed

lemma local_index:
  assumes "0 \<le> x" "0 \<le> y"
  shows "0 \<le> (jsRem y chunkSize * chunkSize + jsRem x chunkSize) * 3"
    and "(jsRem y chunkSize * chunkSize + jsRem x chunkSize) * 3 + 2 < chunkLength"
proof -
  have x: "0 \<le> x mod 1000" "x mod 1000 \<le> 999" using assms by simp_all
  have y: "0 \<le> y mod 1000" "y mod 1000 \<le> 999" using assms by simp_all
  show "0 \<le> (jsRem y chunkSize * chunkSize + jsRem x chunkSize) * 3"
    using assms x y by (simp add: jsRem_def chunkSize_def)
  show "(jsRem y chunkSize * chunkSize + jsRem x chunkSize) * 3 + 2 < chunkLength"
    using assms x y by (simp add: jsRem_def chunkSize_def chunkLength_def)
qed

text \<open>
  C10 (as stated, refuted).  The palette colour \<^verbatim>\<open>#FF4500\<close> written at
  \<open>(5,5)\<close> is read back as \<^verbatim>\<open>#ff4500\<close>, a different string.
\<close>

theorem C10_uppercase_read_back_lowercase:
  "getPaint 5 5 (setPaint 5 5 ''#FF4500'' Map.empty) = Inr (Some ''#ff4500'')
   \<and> ''#ff4500'' \<noteq> ''#FF4500''"
  by code_simp

text \<open>
  C10 (amended).  For non-negative integer coordinates and a colour \<open>c\<close> made of
  \<^verbatim>\<open>#\<close> and six hexadecimal digits, \<^verbatim>\<open>getPaint\<close> right after
  \<^verbatim>\<open>setPaint\<close> returns \<^verbatim>\<open>null\<close> when \<open>c\<close> is
  \<^verbatim>\<open>#000000\<close> and the lower-case spelling of \<open>c\<close> otherwise.
\<close>

theorem C10_roundtrip_lowercase:
  assumes "isHexColor c" "0 \<le> x" "0 \<le> y"
  shows "getPaint x y (setPaint x y c grid)
         = Inr (if c = ''#000000'' then None else Some (map lowerHex c))"
proof -
  from assms(1) obtain a1 a2 a3 a4 a5 a6 where c: "c = [CHR ''#'', a1, a2, a3, a4, a5, a6]"
    and h: "isHexDigit a1" "isHexDigit a2" "isHexDigit a3" "isHexDigit a4" "isHexDigit a5" "isHexDigit a6"
    by (rule hexColor_shape)
  let ?i = "(jsRem y chunkSize * chunkSize + jsRem x chunkSize) * 3"
  note i = local_index [OF assms(2,3)]
  have s: "slice 1 3 c = [a1, a2]" "slice 3 5 c = [a3, a4]" "slice 5 7 c = [a5, a6]"
    by (simp_all add: c slice_def)
  note r = byte_roundtrip [OF h(1,2)] and g = byte_roundtrip [OF h(3,4)] and b = byte_roundtrip [OF h(5,6)]
  have l: "lowerHex (CHR ''#'') = CHR ''#''" by (simp add: lowerHex_def)
  have z: "c = ''#000000'' \<longleftrightarrow> (a1 = CHR ''0'' \<and> a2 = CHR ''0'') \<and> (a3 = CHR ''0'' \<and> a4 = CHR ''0'')
             \<and> (a5 = CHR ''0'' \<and> a6 = CHR ''0'')"
    by (auto simp: c)
  show ?thesis
    using i r g b
    unfolding getPaint_def setPaint_def Let_def s z
    by (simp add: chunkSet_def chunkGet_def c l)
qed

theorem C10_roundtrip_lowercase_witness:
  "getPaint 1005 2999 (setPaint 1005 2999 ''#0a0B0c'' Map.empty) = Inr (Some ''#0a0b0c'')
   \<and> getPaint 7 0 (setPaint 7 0 ''#000000'' Map.empty) = Inr None"
proof -
  have a: "isHexColor ''#0a0B0c''" "isHexColor ''#000000''"
    by (simp_all add: isHexColor_def isHexDigit_def hexDigits_def)
  show ?thesis
    using C10_roundtrip_lowercase [OF a(1), of 1005 2999 Map.empty]
      C10_roundtrip_lowercase [OF a(2), of 7 0 Map.empty]
    by (simp add: lowerHex_def)
qed

section \<open>Theorems: grid addressing\<close>

lemma clamp_of_int:
  "max 0 (min 1999999 (of_int k :: real)) = of_int (max 0 (min 1999999 k))"
  by (simp add: max_def min_def)

lemma inGrid_clamp:
  "inGrid (mathMax 0 (mathMin 1999999 (mathFloor (Num v))))"
proof -
  have "mathMax 0 (mathMin 1999999 (mathFloor (Num v)))
        = Num (of_int (max 0 (min 1999999 \<lfloor>v\<rfloor>)))"
    by (simp add: clamp_of_int)
  moreover have "0 \<le> max 0 (min 1999999 \<lfloor>v\<rfloor>)" "max 0 (min 1999999 \<lfloor>v\<rfloor>) < 2000000"
    by simp_all
  ultimately show ?thesis by simp
qed

lemma tan_mercator_pos:
  assumes "- 90 < lat" "lat < 90"
  shows "0 < tan ((90 + lat) * pi / 360)"
proof -
  have "0 < (90 + lat) * pi / 360" using assms by simp
  moreover have "(90 + lat) * pi / 360 < pi / 2" using assms by simp
  ultimately show ?thesis by (rule tan_gt_zero)
qed

lemma tan_mercator_neg:
  assumes "90 < lat" "lat < 270"
  shows "tan ((90 + lat) * pi / 360) < 0"
proof -
  define t where "t = (90 + lat) * pi / 360"
  have t: "pi / 2 < t" "t < pi" using assms by (simp_all add: t_def)
  have "0 < tan (pi - t)" using t by (intro tan_gt_zero) simp_all
  moreover have "tan (pi - t) = - tan t"
    using tan_periodic_pi [of "- t"] by (simp add: tan_minus add.commute)
  ultimately show ?thesis by (simp add: t_def)
qed

lemma gridCoordsFromLatLng_in_range:
  assumes "- 90 \<le> lat" "lat < 90"
  shows "inGrid (fst (gridCoordsFromLatLng lng lat)) \<and> inGrid (snd (gridCoordsFromLatLng lng lat))"
proof (cases "lat = - 90")
  case True
  then have "mathLog (tan ((90 + lat) * pi / 360)) = NegInfinity"
    by (simp add: mathLog_def)
  then show ?thesis
    using inGrid_clamp [of "(lng * 20037508.34 / 180 + 20037508.34) / CELL_SIZE_METERS"]
    by (simp add: gridCoordsFromLatLng_def toWebMercator_def Let_def)
next
  case False
  then have "0 < tan ((90 + lat) * pi / 360)" using assms tan_mercator_pos by simp
  then have "mathLog (tan ((90 + lat) * pi / 360)) = Num (ln (tan ((90 + lat) * pi / 360)))"
    by (simp add: mathLog_def)
  then show ?thesis
    using inGrid_clamp [of "(lng * 20037508.34 / 180 + 20037508.34) / CELL_SIZE_METERS"]
          inGrid_clamp [of "(ln (tan ((90 + lat) * pi / 360)) / (pi / 180) * 20037508.34 / 180
                             + 20037508.34) / CELL_SIZE_METERS"]
    by (simp add: gridCoordsFromLatLng_def toWebMercator_def Let_def)
qed

text \<open>
  Beyond the poles the logarithm has a negative argument, and the clamp passes
  \<^verbatim>\<open>NaN\<close> on.
\<close>

lemma gridCoordsFromLatLng_NaN:
  assumes "90 < lat" "lat < 270"
  shows "snd (gridCoordsFromLatLng lng lat) = NaN"
proof -
  have "mathLog (tan ((90 + lat) * pi / 360)) = NaN"
    using tan_mercator_neg [OF assms] by (simp add: mathLog_def)
  then show ?thesis by (simp add: gridCoordsFromLatLng_def toWebMercator_def Let_def)
qed

lemma gridCoordsFromLatLng_saturates:
  "fst (gridCoordsFromLatLng (- 200) 0) = Num 0" "fst (gridCoordsFromLatLng 200 0) = Num 1999999"
  "gridCoordsFromLatLng 0 0 = (Num 1000000, Num 1000000)"
  by (simp_all add: gridCoordsFromLatLng_def toWebMercator_def CELL_SIZE_METERS_def Let_def tan_45
      mathLog_def)

text \<open>
  C4.  The click handler of PaintCanvas does not clamp: a click at longitude \<open>-50\<close>,
  latitude \<open>10\<close> paints the cell \<open>(-3, 0)\<close>, outside the grid.  The sibling
  \<^verbatim>\<open>gridCoordsFromLatLng\<close> of CollaborativeCanvas does: for every longitude and
  every latitude from \<open>-90\<close> up to, but excluding, \<open>90\<close> both of its results are
  integers in \<open>[0, 2000000)\<close>.
\<close>

theorem C4_click_cell_not_clamped:
  "map_option pend_x
     (pendingPaints
        (handleMapClick True ''#FF4500'' (Some ''alice'') ''Alice'' '''' 100 (- 50) 10 initialCanvas)
        (getPaintKey (- 3) 0)) = Some (- 3)
   \<and> (- 90 \<le> lat \<and> lat < 90 \<longrightarrow>
        inGrid (fst (gridCoordsFromLatLng lng lat)) \<and> inGrid (snd (gridCoordsFromLatLng lng lat)))"
proof -
  have "map_option pend_x
     (pendingPaints
        (handleMapClick True ''#FF4500'' (Some ''alice'') ''Alice'' '''' 100 (- 50) 10 initialCanvas)
        (getPaintKey (- 3) 0)) = Some (- 3)"
    by (simp add: handleMapClick_def CELL_SIZE_METERS_def handlePaint_def initialCanvas_def
        getPaintKey_def renderCanvas_def Let_def)
  then show ?thesis using gridCoordsFromLatLng_in_range [of lat lng] by simp
qed

text \<open>
  Longitude 200 lies east of the grid; at latitude 0 its cell is the boundary cell
  \<open>1999999\<close> of the middle row.
\<close>

theorem C4_click_cell_not_clamped_witness:
  "(- 90 \<le> (0::real) \<and> (0::real) < 90)
   \<and> inGrid (fst (gridCoordsFromLatLng 200 0)) \<and> inGrid (snd (gridCoordsFromLatLng 200 0))
   \<and> gridCoordsFromLatLng 200 0 = (Num 1999999, Num 1000000)"
proof -
  have "gridCoordsFromLatLng 200 0 = (Num 1999999, Num 1000000)"
    by (simp add: gridCoordsFromLatLng_def toWebMercator_def CELL_SIZE_METERS_def Let_def tan_45
        mathLog_def)
  then show ?thesis using C4_click_cell_not_clamped [of 0 200] by simp
qed

section \<open>Theorems: charges\<close>




lemma flushBuffer_capacity [simp]: "userCapacity (snd (flushBuffer store st)) = userCapacity st"
  by (simp add: flushBuffer_def Let_def split: option.splits)


lemma paintPixelInstant_charges [simp]:
  "userCharges (paintPixelInstant gx gy col now st) = userCharges st"
  "userCapacity (paintPixelInstant gx gy col now st) = userCapacity st"
  by (simp_all add: paintPixelInstant_def Let_def split: option.splits)

lemma collabRealtimeUpdate_capacity [simp]:
  "userCapacity (collabRealtimeUpdate payload st) = userCapacity st"
  by (simp add: collabRealtimeUpdate_def split: EventType.splits option.splits)








section \<open>Theorems: write batching\<close>

lemma enqueueAll_snoc: "enqueueAll (ops @ [a]) = batcherStep (enqueueAll ops) a"
  by (simp add: enqueueAll_def)

lemma paintsOf_append: "paintsOf (xs @ ys) = paintsOf xs @ paintsOf ys"
  by (induction xs rule: paintsOf.induct) auto

lemma deletesOf_append: "deletesOf (xs @ ys) = deletesOf xs @ deletesOf ys"
  by (induction xs rule: deletesOf.induct) auto

lemma lastOption_Some: "lastOption (filter P xs) = Some x \<Longrightarrow> P x"
proof -
  assume a: "lastOption (filter P xs) = Some x"
  then have ne: "filter P xs \<noteq> []" and l: "last (filter P xs) = x"
    by (auto simp: lastOption_def split: if_splits)
  from last_in_set [OF ne] l show "P x" by auto
qed

lemma enqueueAll_paints:
  "distinct (map fst (batcher_paints (enqueueAll ops)))
   \<and> map_of (batcher_paints (enqueueAll ops)) k = lastPaint k ops"
proof (induction ops rule: rev_induct)
  case Nil
  show ?case by (simp add: enqueueAll_def newBatcher_def lastPaint_def lastOption_def)
next
  case (snoc a ops)
  show ?case
  proof (cases a)
    case (AddPaint p)
    with snoc show ?thesis
      by (simp add: enqueueAll_snoc addPaint_def scheduleBatch_def distinct_update update_conv'
          lastPaint_def lastOption_def paintsOf_append)
  next
    case (AddDelete d)
    with snoc show ?thesis
      by (simp add: enqueueAll_snoc addDelete_def scheduleBatch_def lastPaint_def paintsOf_append)
  qed
qed

lemma enqueueAll_deletes:
  "distinct (map fst (batcher_deletes (enqueueAll ops)))
   \<and> map_of (batcher_deletes (enqueueAll ops)) k = lastDelete k ops"
proof (induction ops rule: rev_induct)
  case Nil
  show ?case by (simp add: enqueueAll_def newBatcher_def lastDelete_def lastOption_def)
next
  case (snoc a ops)
  show ?case
  proof (cases a)
    case (AddPaint p)
    with snoc show ?thesis
      by (simp add: enqueueAll_snoc addPaint_def scheduleBatch_def lastDelete_def deletesOf_append)
  next
    case (AddDelete d)
    with snoc show ?thesis
      by (simp add: enqueueAll_snoc addDelete_def scheduleBatch_def distinct_update update_conv'
          lastDelete_def lastOption_def deletesOf_append)
  qed
qed

lemma enqueueAll_paint_keys:
  "map (\<lambda>p. hashCoordinate (upd_x p) (upd_y p)) (map snd (batcher_paints (enqueueAll ops)))
   = map fst (batcher_paints (enqueueAll ops))"
proof -
  have "hashCoordinate (upd_x (snd e)) (upd_y (snd e)) = fst e"
    if "e \<in> set (batcher_paints (enqueueAll ops))" for e
  proof -
    from that enqueueAll_paints [of ops "fst e"]
    have "lastPaint (fst e) ops = Some (snd e)"
      by (metis map_of_is_SomeI prod.collapse)
    then show ?thesis unfolding lastPaint_def by (rule lastOption_Some)
  qed
  then show ?thesis by simp
qed

lemma enqueueAll_delete_keys:
  "map (\<lambda>d. hashCoordinate (del_x d) (del_y d)) (map snd (batcher_deletes (enqueueAll ops)))
   = map fst (batcher_deletes (enqueueAll ops))"
proof -
  have "hashCoordinate (del_x (snd e)) (del_y (snd e)) = fst e"
    if "e \<in> set (batcher_deletes (enqueueAll ops))" for e
  proof -
    from that enqueueAll_deletes [of ops "fst e"]
    have "lastDelete (fst e) ops = Some (snd e)"
      by (metis map_of_is_SomeI prod.collapse)
    then show ?thesis unfolding lastDelete_def by (rule lastOption_Some)
  qed
  then show ?thesis by simp
qed

lemma enqueueAll_empty:
  "(batcher_paints (enqueueAll ops) = [] \<and> batcher_deletes (enqueueAll ops) = []) = (ops = [])"
proof (induction ops rule: rev_induct)
  case Nil
  show ?case by (simp add: enqueueAll_def newBatcher_def)
next
  case (snoc a ops)
  have "AList.update k v al \<noteq> []" for k :: cellKey and v :: 'v and al
    by (cases al) auto
  then show ?case
    by (cases a) (simp_all add: enqueueAll_snoc addPaint_def addDelete_def scheduleBatch_def)
qed

lemma paintBuffer_distinct_step:
  "distinct (map fst (paintBuffer (snd s))) \<Longrightarrow> distinct (map fst (paintBuffer (snd (collabStep a s))))"
  by (cases a; cases s)
    (auto simp: paintPixelInstant_def flushBuffer_def collabRealtimeUpdate_def Let_def distinct_update
      split: option.splits EventType.splits)

lemma paintBuffer_distinct_run:
  "distinct (map fst (paintBuffer (snd s))) \<Longrightarrow> distinct (map fst (paintBuffer (snd (collabRun ops s))))"
  by (induction ops arbitrary: s) (auto simp: paintBuffer_distinct_step)

text \<open>
  C8 (as stated, refuted).  PaintBatcher holds paints and deletes in two maps: a delete
  and then a paint enqueued for cell \<open>(0,0)\<close> are both pending, and the flushed
  batch holds both writes for that cell.
\<close>

theorem C8_two_writes_for_one_cell:
  "snd (processBatch (enqueueAll [AddDelete bobDelete, AddPaint (bobPaint 9 ''#ff0000'')]))
     = Some ([bobPaint 9 ''#ff0000''], [bobDelete])
   \<and> hashCoordinate (upd_x (bobPaint 9 ''#ff0000'')) (upd_y (bobPaint 9 ''#ff0000''))
     = hashCoordinate (del_x bobDelete) (del_y bobDelete)
   \<and> length (batcher_paints (enqueueAll [AddDelete bobDelete, AddPaint (bobPaint 9 ''#ff0000'')]))
       + length (batcher_deletes (enqueueAll [AddDelete bobDelete, AddPaint (bobPaint 9 ''#ff0000'')]))
     = 2"
  by (simp add: processBatch_def enqueueAll_def addPaint_def addDelete_def scheduleBatch_def
      newBatcher_def bobPaint_def bobDelete_def hashCoordinate_def)

text \<open>
  C8 (amended).  Key collapsing is per kind of write.  For every sequence of
  \<^verbatim>\<open>addPaint\<close> and \<^verbatim>\<open>addDelete\<close> calls, PaintBatcher keeps at most one
  pending paint and at most one pending delete per key; the pending paint (delete) of a
  key is the last paint (delete) enqueued for it, and the flushed batch holds exactly
  the pending paints and the pending deletes (no batch is handed over when nothing was
  enqueued).  The \<^verbatim>\<open>paintBuffer\<close> of CollaborativeCanvas keeps at most one
  entry, paint or erase, per key, and, the canvas being mounted, after
  \<^verbatim>\<open>paintPixelInstant\<close> the entry of the cell is the write just made.
\<close>

theorem C8_batcher_collapses_per_kind:
  "distinct (map (\<lambda>p. hashCoordinate (upd_x p) (upd_y p)) (map snd (batcher_paints (enqueueAll ops))))
   \<and> distinct (map (\<lambda>d. hashCoordinate (del_x d) (del_y d)) (map snd (batcher_deletes (enqueueAll ops))))
   \<and> map_of (batcher_paints (enqueueAll ops)) k = lastPaint k ops
   \<and> map_of (batcher_deletes (enqueueAll ops)) k = lastDelete k ops
   \<and> snd (processBatch (enqueueAll ops))
     = (if ops = [] then None
        else Some (map snd (batcher_paints (enqueueAll ops)), map snd (batcher_deletes (enqueueAll ops))))
   \<and> distinct (map fst (paintBuffer (snd (collabRun cops (store, initialCollab)))))
   \<and> (canvasReady cst \<longrightarrow>
        map_of (paintBuffer (paintPixelInstant gx gy col now cst)) (gx, gy)
        = Some \<lparr>gridX = gx, gridY = gy, buf_color = col, buf_timestamp = now,
                spendCharge = (col \<noteq> None)\<rparr>)"
proof -
  have "snd (processBatch (enqueueAll ops))
     = (if ops = [] then None
        else Some (map snd (batcher_paints (enqueueAll ops)), map snd (batcher_deletes (enqueueAll ops))))"
    using enqueueAll_empty [of ops] by (auto simp: processBatch_def)
  moreover have "distinct (map fst (paintBuffer (snd (collabRun cops (store, initialCollab)))))"
    by (rule paintBuffer_distinct_run) (simp add: initialCollab_def)
  moreover have "canvasReady cst \<Longrightarrow>
        map_of (paintBuffer (paintPixelInstant gx gy col now cst)) (gx, gy)
        = Some \<lparr>gridX = gx, gridY = gy, buf_color = col, buf_timestamp = now,
                spendCharge = (col \<noteq> None)\<rparr>"
    by (simp add: paintPixelInstant_def Let_def update_conv' split: option.splits)
  ultimately show ?thesis
    using enqueueAll_paints [of ops k] enqueueAll_deletes [of ops k]
    unfolding enqueueAll_paint_keys enqueueAll_delete_keys
    by simp
qed

theorem C8_batcher_collapses_per_kind_witness:
  "snd (processBatch (enqueueAll
          [AddPaint (bobPaint 1 ''#ff0000''), AddDelete bobDelete, AddPaint (bobPaint 2 ''#0000ff'')]))
     = Some ([bobPaint 2 ''#0000ff''], [bobDelete])
   \<and> map_option buf_timestamp
       (map_of (paintBuffer (paintPixelInstant 4 4 None 8
                  (paintPixelInstant 4 4 (Some ''#FF4500'') 7 initialCollab))) (4, 4)) = Some 8
   \<and> canvasReady (paintPixelInstant 4 4 (Some ''#FF4500'') 7 initialCollab)"
proof -
  let ?ops = "[AddPaint (bobPaint 1 ''#ff0000''), AddDelete bobDelete, AddPaint (bobPaint 2 ''#0000ff'')]"
  have b: "batcher_paints (enqueueAll ?ops) = [((0, 0), bobPaint 2 ''#0000ff'')]"
    "batcher_deletes (enqueueAll ?ops) = [((0, 0), bobDelete)]"
    by (simp_all add: enqueueAll_def addPaint_def addDelete_def scheduleBatch_def newBatcher_def
        bobPaint_def bobDelete_def hashCoordinate_def)
  have c: "canvasReady (paintPixelInstant 4 4 (Some ''#FF4500'') 7 initialCollab)"
    by (simp add: paintPixelInstant_def initialCollab_def Let_def)
  show ?thesis
    using C8_batcher_collapses_per_kind [of ?ops "(0, 0)" "[]" "[]"
        "paintPixelInstant 4 4 (Some ''#FF4500'') 7 initialCollab" 4 4 None 8] b c
    by simp
qed

section \<open>Theorems: erase flush\<close>







end
